theory Spec2Isabelle
  imports Main "HOL-Library.AList"
begin

section \<open>JavaScript values\<close>

text \<open>
  The generation gateway and the import path work on untyped data (\<^verbatim>\<open>any\<close>): whatever
  \<^verbatim>\<open>JSON.parse\<close> returned. Such data is modelled by the datatype \<open>jsval\<close>. An object is the
  list of its properties in insertion order.

  A finite number is written as a decimal: \<open>Decimal m f\<close> is \<open>m / 10^f\<close>, so that \<open>Fin i\<close>,
  short for \<open>Decimal i 0\<close>, is the integer \<open>i\<close>, and 10.9 is \<open>Decimal 109 1\<close>. It stands for
  the double whose shortest decimal text it is, the text that \<^verbatim>\<open>String\<close> prints; up to
  \<open>2^53\<close> in magnitude every integer is such a double. \<open>NaN\<close> and the two infinities are
  the other values of the type.
\<close>

datatype number = Decimal int nat | NaN | PosInfinity | NegInfinity

abbreviation Fin :: "int \<Rightarrow> number" where
  "Fin i \<equiv> Decimal i 0"

datatype jsval =
    JUndefined
  | JNull
  | JBool bool
  | JNum number
  | JStr string
  | JArr "jsval list"
  | JObj "(string \<times> jsval) list"

text \<open>What the program can throw: the errors it raises itself and the TypeError of the
  language (a property read of \<^verbatim>\<open>null\<close>/\<^verbatim>\<open>undefined\<close>, a call of a method that the value
  does not have, a spread of a value that is not iterable).\<close>

datatype exn =
    ApiKeyMissing
  | TransportError
  | TypeError
  | MissingFields nat

text \<open>Sequencing of steps that may throw: the first exception leaves the block.\<close>

definition and_then :: "exn + 'a \<Rightarrow> ('a \<Rightarrow> exn + 'b) \<Rightarrow> exn + 'b" where
  "and_then m f = (case m of Inl e \<Rightarrow> Inl e | Inr v \<Rightarrow> f v)"

subsection \<open>Numbers\<close>

text \<open>Truthiness of a number: zero and NaN are falsy.\<close>

fun num_truthy :: "number \<Rightarrow> bool" where
  "num_truthy (Decimal m f) = (m \<noteq> 0)"
| "num_truthy NaN = False"
| "num_truthy PosInfinity = True"
| "num_truthy NegInfinity = True"

definition num_or :: "number \<Rightarrow> number \<Rightarrow> number" where
  "num_or v w = (if num_truthy v then v else w)"

text \<open>\<^verbatim>\<open>x > k\<close> for an integer literal \<open>k\<close>: every comparison with NaN is false.\<close>

fun num_gt :: "number \<Rightarrow> int \<Rightarrow> bool" where
  "num_gt (Decimal m f) k = (m > k * 10 ^ f)"
| "num_gt NaN k = False"
| "num_gt PosInfinity k = True"
| "num_gt NegInfinity k = False"

text \<open>\<^verbatim>\<open>x !== 0\<close>\<close>

fun num_ne0 :: "number \<Rightarrow> bool" where
  "num_ne0 (Decimal m f) = (m \<noteq> 0)"
| "num_ne0 NaN = True"
| "num_ne0 PosInfinity = True"
| "num_ne0 NegInfinity = True"

text \<open>\<^verbatim>\<open>Math.max(100, x)\<close>\<close>

fun max_100 :: "number \<Rightarrow> number" where
  "max_100 (Decimal m f) = (if m > 100 * 10 ^ f then Decimal m f else Fin 100)"
| "max_100 NaN = NaN"
| "max_100 PosInfinity = PosInfinity"
| "max_100 NegInfinity = Fin 100"

text \<open>The decimal in lowest terms: no zero at the end of the digits after the point.\<close>

fun lowest :: "int \<Rightarrow> nat \<Rightarrow> int \<times> nat" where
  "lowest m 0 = (m, 0)"
| "lowest m (Suc f) = (if m mod 10 = 0 then lowest (m div 10) f else (m, Suc f))"

subsection \<open>Values\<close>

text \<open>Truthiness, as \<^verbatim>\<open>!v\<close>, \<^verbatim>\<open>v ? _ : _\<close> and \<^verbatim>\<open>v || w\<close> use it.\<close>

fun truthy :: "jsval \<Rightarrow> bool" where
  "truthy JUndefined = False"
| "truthy JNull = False"
| "truthy (JBool b) = b"
| "truthy (JNum n) = num_truthy n"
| "truthy (JStr s) = (s \<noteq> [])"
| "truthy (JArr xs) = True"
| "truthy (JObj kvs) = True"

definition js_or :: "jsval \<Rightarrow> jsval \<Rightarrow> jsval" where
  "js_or v w = (if truthy v then v else w)"

text \<open>The property read \<^verbatim>\<open>v.k\<close>, for the property names the program reads (none of them
  is a property of a string, a number, a boolean or an array). Reading a property of
  \<^verbatim>\<open>null\<close> or \<^verbatim>\<open>undefined\<close> throws.\<close>

fun fld :: "jsval \<Rightarrow> string \<Rightarrow> jsval" where
  "fld (JObj kvs) k = (case map_of kvs k of Some v \<Rightarrow> v | None \<Rightarrow> JUndefined)"
| "fld v k = JUndefined"

definition nullish :: "jsval \<Rightarrow> bool" where
  "nullish v = (v = JNull \<or> v = JUndefined)"

definition get_prop :: "jsval \<Rightarrow> string \<Rightarrow> exn + jsval" where
  "get_prop v k = (if nullish v then Inl TypeError else Inr (fld v k))"

definition isArray :: "jsval \<Rightarrow> bool" where
  "isArray v = (case v of JArr xs \<Rightarrow> True | _ \<Rightarrow> False)"

subsection \<open>Strings\<close>

text \<open>\<^verbatim>\<open>String.prototype.toLowerCase\<close> and \<^verbatim>\<open>toUpperCase\<close> are parameters of the model
  (\<open>toLowerCase\<close>, \<open>toUpperCase\<close>): what they do beyond the 26 letters of ASCII is left to the
  library. \<open>ascii_lower\<close> and \<open>ascii_upper\<close> are these functions on strings of ASCII
  characters; the examples take them for the parameters.\<close>

definition lower_char :: "char \<Rightarrow> char" where
  "lower_char c =
     (case map_of (zip ''ABCDEFGHIJKLMNOPQRSTUVWXYZ'' ''abcdefghijklmnopqrstuvwxyz'') c of
        Some l \<Rightarrow> l | None \<Rightarrow> c)"

definition upper_char :: "char \<Rightarrow> char" where
  "upper_char c =
     (case map_of (zip ''abcdefghijklmnopqrstuvwxyz'' ''ABCDEFGHIJKLMNOPQRSTUVWXYZ'') c of
        Some u \<Rightarrow> u | None \<Rightarrow> c)"

definition ascii_lower :: "string \<Rightarrow> string" where
  "ascii_lower s = map lower_char s"

definition ascii_upper :: "string \<Rightarrow> string" where
  "ascii_upper s = map upper_char s"

text \<open>\<^verbatim>\<open>v.toLowerCase()\<close> on an untyped value: only a string has the method.\<close>

fun lower_of :: "(string \<Rightarrow> string) \<Rightarrow> jsval \<Rightarrow> exn + string" where
  "lower_of toLowerCase (JStr s) = Inr (toLowerCase s)"
| "lower_of toLowerCase v = Inl TypeError"

text \<open>The decimal digits of a natural number.\<close>

definition digit_char :: "nat \<Rightarrow> char" where
  "digit_char d = ''0123456789'' ! d"

function show_nat :: "nat \<Rightarrow> string" where
  "show_nat n =
     (if n < 10 then [digit_char n] else show_nat (n div 10) @ [digit_char (n mod 10)])"
  by pat_completeness auto
termination
  by (relation "measure (\<lambda>n. n)") auto

declare show_nat.simps [simp del]


text \<open>\<^verbatim>\<open>Number::toString\<close> of a positive decimal \<open>m / 10^f\<close> in lowest terms. With \<open>n\<close> the
  position of the decimal point after the first digit that is not zero: an integer of at
  most 21 digits prints its digits; a number with \<open>0 < n \<le> 21\<close> prints the digits with
  the point after the \<open>n\<close>-th; one with \<open>-6 < n \<le> 0\<close> prints \<^verbatim>\<open>0.\<close>, \<open>-n\<close> zeros and the
  digits; any other prints the exponent notation, as \<^verbatim>\<open>1e+21\<close> and \<^verbatim>\<open>1.5e-7\<close>.\<close>

definition exponent_notation :: "string \<Rightarrow> int \<Rightarrow> string" where
  "exponent_notation s e =
     (case s of
        [] \<Rightarrow> []
      | d # ds \<Rightarrow>
          (if ds = [] then [d] else d # CHR ''.'' # ds) @
          CHR ''e'' # (if e < 0 then CHR ''-'' else CHR ''+'') # show_nat (nat \<bar>e\<bar>))"

definition show_positive :: "int \<Rightarrow> nat \<Rightarrow> string" where
  "show_positive m f =
     (let digits = show_nat (nat m);
          n = int (length digits) - int f
      in if f = 0 \<and> n \<le> 21 then digits
         else if 0 < n \<and> n \<le> 21 then take (nat n) digits @ CHR ''.'' # drop (nat n) digits
         else if - 6 < n \<and> n \<le> 0 then ''0.'' @ replicate (nat (- n)) CHR ''0'' @ digits
         else exponent_notation (rev (dropWhile (\<lambda>c. c = CHR ''0'') (rev digits))) (n - 1))"

fun show_num :: "number \<Rightarrow> string" where
  "show_num (Decimal m f) =
     (if m = 0 then ''0''
      else
        let (m', f') = lowest m f in
        if m' < 0 then CHR ''-'' # show_positive (- m') f' else show_positive m' f')"
| "show_num NaN = ''NaN''"
| "show_num PosInfinity = ''Infinity''"
| "show_num NegInfinity = ''-Infinity''"

fun join_comma :: "string list \<Rightarrow> string" where
  "join_comma [] = []"
| "join_comma [s] = s"
| "join_comma (s # t # ss) = s @ CHR '','' # join_comma (t # ss)"

text \<open>\<^verbatim>\<open>String(v)\<close>. An array prints its elements separated by commas, \<^verbatim>\<open>null\<close> and
  \<^verbatim>\<open>undefined\<close> elements as nothing.\<close>

fun js_String :: "jsval \<Rightarrow> string" where
  "js_String JUndefined = ''undefined''"
| "js_String JNull = ''null''"
| "js_String (JBool b) = (if b then ''true'' else ''false'')"
| "js_String (JNum n) = show_num n"
| "js_String (JStr s) = s"
| "js_String (JArr xs) =
     join_comma (map (\<lambda>v. case v of JUndefined \<Rightarrow> [] | JNull \<Rightarrow> [] | _ \<Rightarrow> js_String v) xs)"
| "js_String (JObj kvs) = ''[object Object]''"

text \<open>\<^verbatim>\<open>parseInt(s, 10)\<close>: leading white space is skipped, one sign is read, then the
  longest run of decimal digits; no digit gives NaN. What follows the digits is ignored: a
  decimal point, an exponent. (A result beyond \<open>2^53\<close> is rounded to a double by
  JavaScript; the model keeps the integer.)\<close>

definition is_ws :: "char \<Rightarrow> bool" where
  "is_ws c = (c \<in> set [CHR '' '', CHR 0x09, CHR 0x0A, CHR 0x0B, CHR 0x0C, CHR 0x0D])"

definition is_digit :: "char \<Rightarrow> bool" where
  "is_digit c = (c \<in> set ''0123456789'')"

definition digit_val :: "char \<Rightarrow> nat" where
  "digit_val c = (case map_of (zip ''0123456789'' [0, 1, 2, 3, 4, 5, 6, 7, 8, 9]) c of Some d \<Rightarrow> d | None \<Rightarrow> 0)"

definition digits_val :: "string \<Rightarrow> nat" where
  "digits_val ds = foldl (\<lambda>acc c. 10 * acc + digit_val c) 0 ds"

definition parseInt :: "string \<Rightarrow> number" where
  "parseInt s =
     (let t = dropWhile is_ws s;
          neg = (t \<noteq> [] \<and> hd t = CHR ''-'');
          r = (if t \<noteq> [] \<and> (hd t = CHR ''-'' \<or> hd t = CHR ''+'') then tl t else t);
          ds = takeWhile is_digit r
      in if ds = [] then NaN
         else Fin (if neg then - int (digits_val ds) else int (digits_val ds)))"

section \<open>The sanitizer of the generation gateway\<close>

text \<open>
  \<^verbatim>\<open>generateId = () => Math.random().toString(36).substr(2, 9)\<close>. The random source is
  a parameter of the model: \<open>rnd k\<close> is the string that the \<open>k\<close>-th call of
  \<^verbatim>\<open>generateId\<close> returns, and the number of calls made so far is threaded through.
\<close>

type_synonym idgen = "nat \<Rightarrow> string"

definition generateId :: "idgen \<Rightarrow> nat \<Rightarrow> string \<times> nat" where
  "generateId rnd n = (rnd n, Suc n)"

text \<open>The string enum of the action types:
  \<^verbatim>\<open>export enum ActionType { CLICK = 'CLICK', DELAY = 'DELAY', MOVE = 'MOVE', KEY = 'KEY', SCROLL = 'SCROLL' }\<close>.
  A member is its string at run time, and the sanitizer compares the untyped
  \<^verbatim>\<open>a.type\<close> with these strings.\<close>

definition ActionType_CLICK :: string where "ActionType_CLICK = ''CLICK''"
definition ActionType_DELAY :: string where "ActionType_DELAY = ''DELAY''"
definition ActionType_KEY :: string where "ActionType_KEY = ''KEY''"
definition ActionType_SCROLL :: string where "ActionType_SCROLL = ''SCROLL''"

text \<open>The constants that the loop body computes from the candidate \<open>a\<close> first:
  \<^verbatim>\<open>(a.button || 'left').toLowerCase()\<close>, \<^verbatim>\<open>(a.key || '').toLowerCase()\<close>,
  \<^verbatim>\<open>a.duration ? parseInt(String(a.duration), 10) : 0\<close>, the same for
  \<^verbatim>\<open>a.scrollAmount\<close>, and \<^verbatim>\<open>(a.actionState || 'click').toLowerCase()\<close>.\<close>

definition parse_field :: "jsval \<Rightarrow> number" where
  "parse_field v = (if truthy v then parseInt (js_String v) else Fin 0)"

definition button_of :: "(string \<Rightarrow> string) \<Rightarrow> jsval \<Rightarrow> exn + string" where
  "button_of toLowerCase a = lower_of toLowerCase (js_or (fld a ''button'') (JStr ''left''))"

definition key_of :: "(string \<Rightarrow> string) \<Rightarrow> jsval \<Rightarrow> exn + string" where
  "key_of toLowerCase a = lower_of toLowerCase (js_or (fld a ''key'') (JStr []))"

definition duration_of :: "jsval \<Rightarrow> number" where
  "duration_of a = parse_field (fld a ''duration'')"

definition scrollAmount_of :: "jsval \<Rightarrow> number" where
  "scrollAmount_of a = parse_field (fld a ''scrollAmount'')"

definition actionState_of :: "(string \<Rightarrow> string) \<Rightarrow> jsval \<Rightarrow> exn + string" where
  "actionState_of toLowerCase a =
     lower_of toLowerCase (js_or (fld a ''actionState'') (JStr ''click''))"





text \<open>The three object literals that the loop body pushes.\<close>

definition state_action ::
  "string \<Rightarrow> jsval \<Rightarrow> string \<Rightarrow> string \<Rightarrow> string \<Rightarrow> jsval \<Rightarrow> jsval \<Rightarrow> jsval \<Rightarrow> number \<Rightarrow> jsval"
where
  "state_action i ty button key actionState x y absolute scrollAmount =
     JObj [(''id'', JStr i), (''type'', ty), (''button'', JStr button), (''key'', JStr key),
           (''actionState'', JStr actionState), (''duration'', JNum (Fin 0)),
           (''x'', x), (''y'', y), (''absolute'', absolute),
           (''scrollAmount'', JNum scrollAmount)]"

definition delay_action :: "string \<Rightarrow> number \<Rightarrow> jsval" where
  "delay_action i duration =
     JObj [(''id'', JStr i), (''type'', JStr ActionType_DELAY), (''duration'', JNum duration)]"

definition atomic_action ::
  "string \<Rightarrow> jsval \<Rightarrow> number \<Rightarrow> jsval \<Rightarrow> jsval \<Rightarrow> string \<Rightarrow> jsval \<Rightarrow> string \<Rightarrow> number \<Rightarrow> jsval"
where
  "atomic_action i ty duration x y button absolute key scrollAmount =
     JObj [(''id'', JStr i), (''type'', ty), (''duration'', JNum duration),
           (''x'', x), (''y'', y), (''button'', JStr button), (''absolute'', absolute),
           (''key'', JStr key), (''actionState'', JStr ''click''),
           (''scrollAmount'', JNum scrollAmount)]"

text \<open>The body of the loop \<^verbatim>\<open>for (const a of list)\<close>: the actions pushed for one
  candidate, and the id counter after them. The first property read, \<^verbatim>\<open>a.type\<close>,
  throws when \<open>a\<close> is \<^verbatim>\<open>null\<close>.\<close>

definition sanitize_item ::
  "(string \<Rightarrow> string) \<Rightarrow> idgen \<Rightarrow> nat \<Rightarrow> jsval \<Rightarrow> exn + (jsval list \<times> nat)"
where
  "sanitize_item toLowerCase rnd n a =
     and_then (get_prop a ''type'') (\<lambda>ty.
     and_then (button_of toLowerCase a) (\<lambda>button.
     and_then (key_of toLowerCase a) (\<lambda>key.
     let duration = duration_of a;
         scrollAmount = scrollAmount_of a
     in
     and_then (actionState_of toLowerCase a) (\<lambda>actionState.
       if actionState = ''down'' \<or> actionState = ''up'' then
         let (i1, n1) = generateId rnd n;
             first = state_action i1 ty button key actionState
                       (js_or (fld a ''x'') (JNum (Fin 0))) (js_or (fld a ''y'') (JNum (Fin 0)))
                       (js_or (fld a ''absolute'') (JBool False)) scrollAmount
         in
         if num_gt duration 0 \<and> actionState = ''down'' then
           let (i2, n2) = generateId rnd n1 in Inr ([first, delay_action i2 duration], n2)
         else Inr ([first], n1)
       else if (ty = JStr ''CLICK'' \<or> ty = JStr ''KEY'') \<and> num_gt duration 10 then
         let (i1, n1) = generateId rnd n;
             (i2, n2) = generateId rnd n1;
             (i3, n3) = generateId rnd n2
         in Inr ([state_action i1 ty button key ''down''
                    (JNum (Fin 0)) (JNum (Fin 0)) (JBool False) (Fin 0),
                  delay_action i2 duration,
                  state_action i3 ty button key ''up''
                    (JNum (Fin 0)) (JNum (Fin 0)) (JBool False) (Fin 0)], n3)
       else
         let (i1, n1) = generateId rnd n in
         Inr ([atomic_action i1 ty
                 (if ty = JStr ''DELAY'' then num_or duration (Fin 100) else Fin 0)
                 (js_or (fld a ''x'') (JNum (Fin 0))) (js_or (fld a ''y'') (JNum (Fin 0)))
                 button (js_or (fld a ''absolute'') (JBool False)) key scrollAmount], n1)))))"

text \<open>The loop, with the array \<^verbatim>\<open>processed\<close> as accumulator. An exception leaves it.\<close>

fun sanitize_loop ::
  "(string \<Rightarrow> string) \<Rightarrow> idgen \<Rightarrow> nat \<Rightarrow> jsval list \<Rightarrow> jsval list \<Rightarrow> exn + (jsval list \<times> nat)"
where
  "sanitize_loop toLowerCase rnd n processed [] = Inr (processed, n)"
| "sanitize_loop toLowerCase rnd n processed (a # as) =
     (case sanitize_item toLowerCase rnd n a of
        Inl e \<Rightarrow> Inl e
      | Inr (pushed, n') \<Rightarrow> sanitize_loop toLowerCase rnd n' (processed @ pushed) as)"

definition sanitize ::
  "(string \<Rightarrow> string) \<Rightarrow> idgen \<Rightarrow> nat \<Rightarrow> jsval \<Rightarrow> exn + (jsval list \<times> nat)"
where
  "sanitize toLowerCase rnd n list =
     (case list of JArr xs \<Rightarrow> sanitize_loop toLowerCase rnd n [] xs | _ \<Rightarrow> Inr ([], n))"

section \<open>The generation gateway\<close>

text \<open>The external service is a parameter: for a prompt, \<^verbatim>\<open>generateContent\<close> either
  rejects (a transport failure) or resolves to a response whose \<^verbatim>\<open>text\<close> is a string or
  \<^verbatim>\<open>undefined\<close>. \<^verbatim>\<open>JSON.parse\<close> is a parameter as well: \<open>None\<close> when it throws.\<close>

datatype service_outcome = Transport_failure | Response "string option"

definition str_truthy :: "string option \<Rightarrow> bool" where
  "str_truthy s = (case s of None \<Rightarrow> False | Some t \<Rightarrow> t \<noteq> [])"

definition generateMacroFromPrompt ::
  "string option \<Rightarrow> (string \<Rightarrow> service_outcome) \<Rightarrow> (string \<Rightarrow> jsval option) \<Rightarrow>
   (string \<Rightarrow> string) \<Rightarrow> idgen \<Rightarrow> nat \<Rightarrow> string \<Rightarrow> exn + ((jsval list \<times> jsval list) \<times> nat)"
where
  "generateMacroFromPrompt apiKey generateContent JSON_parse toLowerCase rnd n prompt =
     (if \<not> str_truthy apiKey then Inl ApiKeyMissing
      else
        (case generateContent prompt of
           Transport_failure \<Rightarrow> Inl TransportError
         | Response text \<Rightarrow>
             (case text of
                None \<Rightarrow> Inr (([], []), n)
              | Some t \<Rightarrow>
                  if t = [] then Inr (([], []), n)
                  else
                    (case JSON_parse t of
                       None \<Rightarrow> Inr (([], []), n)
                     | Some result \<Rightarrow>
                         and_then (get_prop result ''mainSequence'') (\<lambda>mainSequence.
                         and_then (sanitize toLowerCase rnd n mainSequence) (\<lambda>(mainActions, n1).
                         and_then (sanitize toLowerCase rnd n1 (fld result ''releaseSequence''))
                           (\<lambda>(releaseActions, n2).
                         Inr ((mainActions, releaseActions), n2))))))))"

section \<open>The application state\<close>

text \<open>The component state of \<^verbatim>\<open>App\<close> that the import and the AI generation touch. A
  stored macro is an object (every path that stores one builds it with a spread), kept
  as its property list. \<open>localStorage\<close> is the document last written under the storage
  key (its serialisation is not modelled), \<open>alerts\<close> the messages shown by
  \<^verbatim>\<open>alert\<close>, oldest first.\<close>

type_synonym object = "(string \<times> jsval) list"

datatype edit_view = MainView | ReleaseView

datatype ai_error = NoApiKey | GenerationFailed

datatype alert =
    EmptyContent
  | InvalidJson
  | RootNotArray
  | ValidationFailed exn
  | ImportSucceeded nat

record app_state =
  macros :: "object list"
  selectedMacroId :: jsval
  editView :: edit_view
  showAiModal :: bool
  aiPrompt :: string
  aiLoading :: bool
  aiStepIndex :: nat
  aiError :: "ai_error option"
  showManualImport :: bool
  manualImportJson :: string
  localStorage :: "object list option"
  alerts :: "alert list"

text \<open>\<^verbatim>\<open>v === w\<close>. Numbers are equal when their values are, that is when their decimals in
  lowest terms are the same, and NaN equals nothing. Arrays and objects are compared by
  reference in JavaScript; the model has no references and takes structurally equal ones
  for the same object.\<close>

fun canonical :: "jsval \<Rightarrow> jsval" where
  "canonical (JNum (Decimal m f)) = (case lowest m f of (m', f') \<Rightarrow> JNum (Decimal m' f'))"
| "canonical v = v"

definition strict_eq :: "jsval \<Rightarrow> jsval \<Rightarrow> bool" where
  "strict_eq v w = (v \<noteq> JNum NaN \<and> canonical v = canonical w)"

text \<open>\<^verbatim>\<open>[...v]\<close>: arrays and strings are iterable, nothing else in a parsed document is.\<close>

fun js_spread :: "jsval \<Rightarrow> exn + jsval list" where
  "js_spread (JArr xs) = Inr xs"
| "js_spread (JStr s) = Inr (map (\<lambda>c. JStr [c]) s)"
| "js_spread v = Inl TypeError"

text \<open>\<^verbatim>\<open>{...m, ...updates}\<close>: a property that \<open>m\<close> has keeps its place and takes the new
  value, a new one is added at the end.\<close>

definition merge :: "object \<Rightarrow> object \<Rightarrow> object" where
  "merge m updates = fold (\<lambda>(k, v). AList.update k v) updates m"

text \<open>\<^verbatim>\<open>setMacros\<close>, followed by the auto-save effect that depends on \<^verbatim>\<open>macros\<close>:
  a non-empty collection is written to the storage.\<close>

definition setMacros :: "object list \<Rightarrow> app_state \<Rightarrow> app_state" where
  "setMacros ms st =
     st\<lparr>macros := ms, localStorage := (if ms \<noteq> [] then Some ms else localStorage st)\<rparr>"

definition updateMacro :: "jsval \<Rightarrow> object \<Rightarrow> app_state \<Rightarrow> app_state" where
  "updateMacro mid updates st =
     setMacros (map (\<lambda>m. if strict_eq (fld (JObj m) ''id'') mid then merge m updates else m)
                  (macros st)) st"

subsection \<open>AI generation\<close>

text \<open>\<^verbatim>\<open>handleAiGenerate\<close>, the await taken as one step. \<open>ticks\<close> is the number of
  times the 800 ms progress interval fired while the request was pending; the list
  \<^verbatim>\<open>AI_STEPS\<close> has six entries.\<close>

definition AI_STEPS_length :: nat where
  "AI_STEPS_length = 6"

text \<open>The block under \<^verbatim>\<open>try\<close>, after the loading flags are set (\<open>st1\<close>); \<open>st\<close> is the
  state that the closure saw when the handler was called.\<close>

definition ai_try_block ::
  "string option \<Rightarrow> (string \<Rightarrow> service_outcome) \<Rightarrow> (string \<Rightarrow> jsval option) \<Rightarrow>
   (string \<Rightarrow> string) \<Rightarrow> idgen \<Rightarrow> nat \<Rightarrow> app_state \<Rightarrow> app_state \<Rightarrow> exn + app_state"
where
  "ai_try_block apiKey generateContent JSON_parse toLowerCase rnd n st st1 =
     and_then (generateMacroFromPrompt apiKey generateContent JSON_parse toLowerCase rnd n
                 (aiPrompt st))
       (\<lambda>((mainActions, releaseActions), n').
          (case find (\<lambda>m. strict_eq (fld (JObj m) ''id'') (selectedMacroId st)) (macros st) of
             None \<Rightarrow> Inr st1
           | Some macro \<Rightarrow>
               and_then (js_spread (fld (JObj macro) ''actions'')) (\<lambda>olds.
               and_then (js_spread (fld (JObj macro) ''releaseActions'')) (\<lambda>oldReleases.
               Inr ((updateMacro (selectedMacroId st)
                       [(''actions'', JArr (olds @ mainActions)),
                        (''releaseActions'', JArr (oldReleases @ releaseActions))]
                       st1)
                    \<lparr>showAiModal := False, aiPrompt := [],
                     editView := (if mainActions = [] \<and> releaseActions \<noteq> []
                                  then ReleaseView else MainView)\<rparr>)))))"

definition handleAiGenerate ::
  "string option \<Rightarrow> (string \<Rightarrow> service_outcome) \<Rightarrow> (string \<Rightarrow> jsval option) \<Rightarrow>
   (string \<Rightarrow> string) \<Rightarrow> idgen \<Rightarrow> nat \<Rightarrow> nat \<Rightarrow> app_state \<Rightarrow> app_state"
where
  "handleAiGenerate apiKey generateContent JSON_parse toLowerCase rnd n ticks st =
     (if \<not> str_truthy apiKey then st\<lparr>aiError := Some NoApiKey\<rparr>
      else if \<not> truthy (selectedMacroId st) then st
      else
        let st1 = st\<lparr>aiLoading := True, aiError := None,
                     aiStepIndex := min ticks (AI_STEPS_length - 1)\<rparr>
        in (case ai_try_block apiKey generateContent JSON_parse toLowerCase rnd n st st1 of
              Inl e \<Rightarrow> st1\<lparr>aiError := Some GenerationFailed, aiLoading := False\<rparr>
            | Inr st2 \<Rightarrow> st2\<lparr>aiLoading := False\<rparr>))"

subsection \<open>Import\<close>

definition trim :: "string \<Rightarrow> string" where
  "trim s = rev (dropWhile is_ws (rev (dropWhile is_ws s)))"

text \<open>The callback of \<^verbatim>\<open>parsed.map\<close>: \<open>idx\<close> is the position of the element \<open>m\<close>. The
  spread \<^verbatim>\<open>{...m, releaseActions: _}\<close> is reached only by an object, since nothing else
  in a parsed document has a truthy \<^verbatim>\<open>id\<close>.\<close>

definition validate_macro :: "nat \<Rightarrow> jsval \<Rightarrow> exn + object" where
  "validate_macro idx m =
     (if nullish m then Inl TypeError
      else if \<not> truthy (fld m ''id'') \<or> \<not> truthy (fld m ''name'') \<or>
              \<not> truthy (fld m ''triggerKey'') \<or> \<not> isArray (fld m ''actions'')
      then Inl (MissingFields (idx + 1))
      else Inr (AList.update ''releaseActions''
                  (if isArray (fld m ''releaseActions'') then fld m ''releaseActions''
                   else JArr [])
                  (case m of JObj kvs \<Rightarrow> kvs | _ \<Rightarrow> [])))"

fun validate_from :: "nat \<Rightarrow> jsval list \<Rightarrow> exn + object list" where
  "validate_from idx [] = Inr []"
| "validate_from idx (m # ms) =
     and_then (validate_macro idx m) (\<lambda>v.
     and_then (validate_from (Suc idx) ms) (\<lambda>vs. Inr (v # vs)))"

definition show_alert :: "alert \<Rightarrow> app_state \<Rightarrow> app_state" where
  "show_alert msg st = st\<lparr>alerts := alerts st @ [msg]\<rparr>"

definition processImport :: "(string \<Rightarrow> jsval option) \<Rightarrow> string \<Rightarrow> app_state \<Rightarrow> app_state" where
  "processImport JSON_parse jsonString st =
     (if jsonString = [] \<or> trim jsonString = [] then show_alert EmptyContent st
      else
        (case JSON_parse jsonString of
           None \<Rightarrow> show_alert InvalidJson st
         | Some parsed \<Rightarrow>
             if \<not> isArray parsed then show_alert RootNotArray st
             else
               (case validate_from 0 (case parsed of JArr ms \<Rightarrow> ms | _ \<Rightarrow> []) of
                  Inl e \<Rightarrow> show_alert (ValidationFailed e) st
                | Inr validatedMacros \<Rightarrow>
                    (show_alert (ImportSucceeded (length validatedMacros))
                       ((setMacros validatedMacros st)
                        \<lparr>selectedMacroId :=
                           (case validatedMacros of
                              [] \<Rightarrow> selectedMacroId st
                            | m # ms \<Rightarrow> fld (JObj m) ''id''),
                         localStorage := Some validatedMacros\<rparr>))
                    \<lparr>showManualImport := False, manualImportJson := []\<rparr>)))"

text \<open>The validation rule in the specification's words: an element has a non-empty
  \<open>id\<close>, \<open>name\<close> and \<open>triggerKey\<close>, and an array \<open>actions\<close>.\<close>

definition has_required_fields :: "jsval \<Rightarrow> bool" where
  "has_required_fields m =
     (truthy (fld m ''id'') \<and> truthy (fld m ''name'') \<and> truthy (fld m ''triggerKey'') \<and>
      isArray (fld m ''actions''))"

text \<open>A store as the import and the editor leave it: the macros have pairwise different
  ids, and both sequences of each are arrays.\<close>

definition store_ok :: "app_state \<Rightarrow> bool" where
  "store_ok st =
     (distinct (map (\<lambda>m. canonical (fld (JObj m) ''id'')) (macros st)) \<and>
      list_all (\<lambda>m. isArray (fld (JObj m) ''actions'') \<and>
                     isArray (fld (JObj m) ''releaseActions'')) (macros st))"

text \<open>A state with one macro selected and the AI dialog open, for the examples.\<close>

definition one_macro_state :: app_state where
  "one_macro_state =
     \<lparr>macros = [[(''id'', JStr ''default-1''), (''name'', JStr ''macro''),
                 (''triggerKey'', JStr ''f1''), (''loopMode'', JStr ''once''),
                 (''actions'', JArr [JObj [(''id'', JStr ''a1''), (''type'', JStr ''MOVE'')]]),
                 (''releaseActions'', JArr [])]],
      selectedMacroId = JStr ''default-1'', editView = MainView, showAiModal = True,
      aiPrompt = ''hold q for two seconds'', aiLoading = False, aiStepIndex = 0,
      aiError = None, showManualImport = False, manualImportJson = [],
      localStorage =
        Some [[(''id'', JStr ''default-1''), (''name'', JStr ''macro''),
               (''triggerKey'', JStr ''f1''), (''loopMode'', JStr ''once''),
               (''actions'', JArr [JObj [(''id'', JStr ''a1''), (''type'', JStr ''MOVE'')]]),
               (''releaseActions'', JArr [])]],
      alerts = []\<rparr>"

section \<open>The playback visualizer\<close>

text \<open>The action as the visualizer is given it:
  \<^verbatim>\<open>export interface MacroAction { id: string; type: ActionType; actionState?: ActionState; button?: 'left' | 'right' | 'middle'; duration?: number; x?: number; y?: number; absolute?: boolean; key?: string; scrollAmount?: number }\<close>.
  An optional field is an \<open>option\<close>; the string enum and the unions of string literals
  are kept as the strings they are at run time.\<close>

record MacroAction =
  a_id :: string
  a_type :: string
  a_actionState :: "string option"
  a_button :: "string option"
  a_duration :: "number option"
  a_x :: "number option"
  a_y :: "number option"
  a_absolute :: "bool option"
  a_key :: "string option"
  a_scrollAmount :: "number option"

definition normalizeKey :: "(string \<Rightarrow> string) \<Rightarrow> string \<Rightarrow> string" where
  "normalizeKey toUpperCase k =
     (if k = [] then []
      else
        let u = toUpperCase k in
        if u = '' '' then ''SPACE''
        else if u = ''CONTROL'' then ''CTRL''
        else if u = ''RETURN'' then ''ENTER''
        else if u = ''ESCAPE'' then ''ESC''
        else if u = ''DELETE'' then ''DEL''
        else if u = ''INSERT'' then ''INS''
        else if u = ''ARROWUP'' then ''UP''
        else if u = ''ARROWDOWN'' then ''DOWN''
        else if u = ''ARROWLEFT'' then ''LEFT''
        else if u = ''ARROWRIGHT'' then ''RIGHT''
        else if u = ''PAGEUP'' then ''PGUP''
        else if u = ''PAGEDOWN'' then ''PGDN''
        else u)"

text \<open>The canonicalization table as the specification words it: raw names in lower case,
  compared without regard to case, that is after upper-casing both sides; the space is the
  space character. A name that the table does not have is upper-cased.\<close>

definition key_label_table :: "(string \<times> string) list" where
  "key_label_table =
     [('' '', ''SPACE''), (''control'', ''CTRL''), (''return'', ''ENTER''),
      (''escape'', ''ESC''), (''delete'', ''DEL''), (''insert'', ''INS''),
      (''arrowup'', ''UP''), (''arrowdown'', ''DOWN''), (''arrowleft'', ''LEFT''),
      (''arrowright'', ''RIGHT''), (''pageup'', ''PGUP''), (''pagedown'', ''PGDN'')]"

definition canonical_label :: "(string \<Rightarrow> string) \<Rightarrow> string \<Rightarrow> string" where
  "canonical_label toUpperCase raw =
     (if raw = [] then []
      else (case find (\<lambda>(name, label). toUpperCase raw = toUpperCase name) key_label_table of
              Some (name, label) \<Rightarrow> label
            | None \<Rightarrow> toUpperCase raw))"

text \<open>What the library's \<^verbatim>\<open>toUpperCase\<close> returns for the twelve raw names of the table.\<close>

definition upper_cases_table :: "(string \<Rightarrow> string) \<Rightarrow> bool" where
  "upper_cases_table toUpperCase =
     (map toUpperCase (map fst key_label_table) =
        ['' '', ''CONTROL'', ''RETURN'', ''ESCAPE'', ''DELETE'', ''INSERT'', ''ARROWUP'',
         ''ARROWDOWN'', ''ARROWLEFT'', ''ARROWRIGHT'', ''PAGEUP'', ''PAGEDOWN''])"

text \<open>\<^verbatim>\<open>v || w\<close> on an optional string, and \<^verbatim>\<open>v || 0\<close> on an optional number.\<close>

definition str_or :: "string option \<Rightarrow> string \<Rightarrow> string" where
  "str_or v w = (case v of None \<Rightarrow> w | Some s \<Rightarrow> if s = [] then w else s)"

definition num_or0 :: "number option \<Rightarrow> number" where
  "num_or0 v = (case v of None \<Rightarrow> Fin 0 | Some x \<Rightarrow> num_or x (Fin 0))"

text \<open>The pacing of one step:
  \<^verbatim>\<open>let stepDuration = 500; if (action.type === ActionType.DELAY) stepDuration = Math.max(100, action.duration || 0)\<close>\<close>

definition stepDuration :: "MacroAction \<Rightarrow> number" where
  "stepDuration action =
     (if a_type action = ActionType_DELAY then max_100 (num_or0 (a_duration action))
      else Fin 500)"

subsection \<open>Timers\<close>

text \<open>What a timeout does when it fires: the closures that the component passes to
  \<^verbatim>\<open>setTimeout\<close>.\<close>

datatype callback =
    RunStep nat
  | ReleaseKey string
  | ReleaseBtn string
  | ClearScroll

text \<open>The delay that the host takes from the number passed to \<^verbatim>\<open>setTimeout\<close>: the
  argument is a 32-bit signed integer (\<^verbatim>\<open>long\<close>), so the number is truncated to an
  integer and wrapped modulo \<open>2^32\<close>; NaN and the infinities give 0; and a negative delay
  counts as 0. From \<open>2^31\<close> up to \<open>2^32\<close> the timer therefore fires at once.\<close>

fun truncate :: "number \<Rightarrow> int" where
  "truncate (Decimal m f) = (if m < 0 then - ((- m) div 10 ^ f) else m div 10 ^ f)"
| "truncate NaN = 0"
| "truncate PosInfinity = 0"
| "truncate NegInfinity = 0"

definition to_long :: "number \<Rightarrow> int" where
  "to_long x = (truncate x + 2 ^ 31) mod 2 ^ 32 - 2 ^ 31"

definition host_delay :: "number \<Rightarrow> int" where
  "host_delay x = max 0 (to_long x)"

record timer =
  t_handle :: nat
  t_delay :: int
  t_callback :: callback

subsection \<open>Component state\<close>

datatype scroll_dir = ScrollUp | ScrollDown

text \<open>An update of one of the two sets, as it is passed to \<^verbatim>\<open>setActiveKeys\<close> or
  \<^verbatim>\<open>setActiveMouseBtns\<close>: the new set of \<open>reset\<close>; the updater function of \<open>runStep\<close>,
  closed over the label and the \<^verbatim>\<open>actionState\<close> of the action; the updater function of
  the 200 ms timer, which deletes the label.\<close>

datatype set_update =
    Replace "string set"
  | StepUpdater string "string option"
  | Deleter string

text \<open>The state of one \<^verbatim>\<open>MacroVisualizer\<close>. The five state variables hold what the last
  render committed; the \<open>queued\<close> fields hold the updates passed to their setters since
  then, oldest first. React applies them, and runs the updater functions among them, when
  it renders next. The two refs and the host's table of pending timers change at once
  (\<open>nextHandle\<close> is the handle that the next \<^verbatim>\<open>setTimeout\<close> returns).\<close>

record visualizer =
  currentIndex :: int
  isPlaying :: bool
  activeKeys :: "string set"
  activeMouseBtns :: "string set"
  scrollState :: "scroll_dir option"
  queued_currentIndex :: "int list"
  queued_isPlaying :: "bool list"
  queued_activeKeys :: "set_update list"
  queued_activeMouseBtns :: "set_update list"
  queued_scrollState :: "scroll_dir option list"
  isPlayingRef :: bool
  timeoutsRef :: "nat list"
  pendingTimers :: "timer list"
  nextHandle :: nat

definition initial :: visualizer where
  "initial = \<lparr>currentIndex = - 1, isPlaying = False, activeKeys = {}, activeMouseBtns = {},
     scrollState = None, queued_currentIndex = [], queued_isPlaying = [],
     queued_activeKeys = [], queued_activeMouseBtns = [], queued_scrollState = [],
     isPlayingRef = False, timeoutsRef = [], pendingTimers = [], nextHandle = 0\<rparr>"

definition setCurrentIndex :: "int \<Rightarrow> visualizer \<Rightarrow> visualizer" where
  "setCurrentIndex i v = v\<lparr>queued_currentIndex := queued_currentIndex v @ [i]\<rparr>"

definition setIsPlaying :: "bool \<Rightarrow> visualizer \<Rightarrow> visualizer" where
  "setIsPlaying b v = v\<lparr>queued_isPlaying := queued_isPlaying v @ [b]\<rparr>"

definition setActiveKeys :: "set_update \<Rightarrow> visualizer \<Rightarrow> visualizer" where
  "setActiveKeys u v = v\<lparr>queued_activeKeys := queued_activeKeys v @ [u]\<rparr>"

definition setActiveMouseBtns :: "set_update \<Rightarrow> visualizer \<Rightarrow> visualizer" where
  "setActiveMouseBtns u v = v\<lparr>queued_activeMouseBtns := queued_activeMouseBtns v @ [u]\<rparr>"

definition setScrollState :: "scroll_dir option \<Rightarrow> visualizer \<Rightarrow> visualizer" where
  "setScrollState s v = v\<lparr>queued_scrollState := queued_scrollState v @ [s]\<rparr>"

definition setTimeout :: "callback \<Rightarrow> number \<Rightarrow> visualizer \<Rightarrow> nat \<times> visualizer" where
  "setTimeout cb ms v =
     (nextHandle v,
      v\<lparr>pendingTimers :=
           pendingTimers v @
           [\<lparr>t_handle = nextHandle v, t_delay = host_delay ms, t_callback = cb\<rparr>],
        nextHandle := Suc (nextHandle v)\<rparr>)"

definition clearTimeout :: "nat \<Rightarrow> visualizer \<Rightarrow> visualizer" where
  "clearTimeout h v = v\<lparr>pendingTimers := filter (\<lambda>t. t_handle t \<noteq> h) (pendingTimers v)\<rparr>"

text \<open>\<^verbatim>\<open>const t = setTimeout(cb, ms); timeoutsRef.current.push(t);\<close>\<close>

definition schedule :: "callback \<Rightarrow> number \<Rightarrow> visualizer \<Rightarrow> visualizer" where
  "schedule cb ms v =
     (let (t, v') = setTimeout cb ms v in v'\<lparr>timeoutsRef := timeoutsRef v' @ [t]\<rparr>)"

definition stop :: "visualizer \<Rightarrow> visualizer" where
  "stop v =
     setScrollState None
       ((fold clearTimeout (timeoutsRef v) (setIsPlaying False (v\<lparr>isPlayingRef := False\<rparr>)))
          \<lparr>timeoutsRef := []\<rparr>)"

definition reset :: "visualizer \<Rightarrow> visualizer" where
  "reset v =
     setScrollState None
       (setActiveMouseBtns (Replace {}) (setActiveKeys (Replace {}) (setCurrentIndex (- 1) (stop v))))"

text \<open>The visual effect of the step's action, by its type. For a Key or a Click action the
  step only passes the updater function to the setter.\<close>

definition dispatch :: "(string \<Rightarrow> string) \<Rightarrow> MacroAction \<Rightarrow> visualizer \<Rightarrow> visualizer" where
  "dispatch toUpperCase action v =
     (if a_type action = ActionType_KEY then
        let keyName = normalizeKey toUpperCase (str_or (a_key action) []) in
        setActiveKeys (StepUpdater keyName (a_actionState action)) v
      else if a_type action = ActionType_CLICK then
        setActiveMouseBtns (StepUpdater (str_or (a_button action) ''left'') (a_actionState action)) v
      else if a_type action = ActionType_SCROLL then
        let amt = num_or0 (a_scrollAmount action) in
        if num_ne0 amt
        then schedule ClearScroll (Fin 300)
               (setScrollState (Some (if num_gt amt 0 then ScrollUp else ScrollDown)) v)
        else v
      else v)"

definition runStep ::
  "(string \<Rightarrow> string) \<Rightarrow> MacroAction list \<Rightarrow> nat \<Rightarrow> visualizer \<Rightarrow> visualizer"
where
  "runStep toUpperCase actions index v =
     (if \<not> isPlayingRef v then v
      else if index \<ge> length actions then setIsPlaying False v\<lparr>isPlayingRef := False\<rparr>
      else
        let action = actions ! index;
            v1 = setScrollState None (setCurrentIndex (int index) v);
            v2 = dispatch toUpperCase action v1
        in schedule (RunStep (index + 1)) (stepDuration action) v2)"

definition play :: "(string \<Rightarrow> string) \<Rightarrow> MacroAction list \<Rightarrow> visualizer \<Rightarrow> visualizer" where
  "play toUpperCase actions v =
     (if isPlayingRef v then v
      else runStep toUpperCase actions 0 (setIsPlaying True ((reset v)\<lparr>isPlayingRef := True\<rparr>)))"

text \<open>The host fires a pending timer: the timer leaves the table and its callback runs.\<close>

definition fire ::
  "(string \<Rightarrow> string) \<Rightarrow> MacroAction list \<Rightarrow> timer \<Rightarrow> visualizer \<Rightarrow> visualizer"
where
  "fire toUpperCase actions t v =
     (let v' = clearTimeout (t_handle t) v in
      case t_callback t of
        RunStep i \<Rightarrow> runStep toUpperCase actions i v'
      | ReleaseKey k \<Rightarrow> setActiveKeys (Deleter k) v'
      | ReleaseBtn b \<Rightarrow> setActiveMouseBtns (Deleter b) v'
      | ClearScroll \<Rightarrow> setScrollState None v')"

text \<open>React applies one queued update of a set to the set \<open>s\<close>. The updater function of
  \<open>runStep\<close> adds the label for \<open>down\<close>, deletes it for \<open>up\<close>, and otherwise adds it and sets
  the 200 ms timer that will delete it; \<open>release\<close> makes the callback of that timer.\<close>

definition apply_update ::
  "(string \<Rightarrow> callback) \<Rightarrow> set_update \<Rightarrow> string set \<times> visualizer \<Rightarrow> string set \<times> visualizer"
where
  "apply_update release u sv =
     (case sv of (s, v) \<Rightarrow>
       (case u of
          Replace s' \<Rightarrow> (s', v)
        | Deleter name \<Rightarrow> (s - {name}, v)
        | StepUpdater name state \<Rightarrow>
            if state = Some ''down'' then (insert name s, v)
            else if state = Some ''up'' then (s - {name}, v)
            else (insert name s, schedule (release name) (Fin 200) v)))"

definition latest :: "'a \<Rightarrow> 'a list \<Rightarrow> 'a" where
  "latest current queue = (case queue of [] \<Rightarrow> current | x # xs \<Rightarrow> last queue)"

text \<open>A render: React goes through the state variables in the order of their declaration,
  applies the queued updates of each and commits the results.\<close>

definition render :: "visualizer \<Rightarrow> visualizer" where
  "render v =
     (let (keys, v1) = fold (apply_update ReleaseKey) (queued_activeKeys v) (activeKeys v, v);
          (btns, v2) = fold (apply_update ReleaseBtn) (queued_activeMouseBtns v)
                         (activeMouseBtns v, v1)
      in v2\<lparr>currentIndex := latest (currentIndex v) (queued_currentIndex v),
            isPlaying := latest (isPlaying v) (queued_isPlaying v),
            activeKeys := keys, activeMouseBtns := btns,
            scrollState := latest (scrollState v) (queued_scrollState v),
            queued_currentIndex := [], queued_isPlaying := [], queued_activeKeys := [],
            queued_activeMouseBtns := [], queued_scrollState := []\<rparr>)"


definition key_step :: "string \<Rightarrow> string \<Rightarrow> MacroAction" where
  "key_step state k =
     \<lparr>a_id = ''k'', a_type = ActionType_KEY, a_actionState = Some state,
      a_button = Some ''left'', a_duration = Some (Fin 0), a_x = Some (Fin 0),
      a_y = Some (Fin 0), a_absolute = Some False, a_key = Some k,
      a_scrollAmount = Some (Fin 0)\<rparr>"

definition scroll_step :: "number \<Rightarrow> MacroAction" where
  "scroll_step amount =
     \<lparr>a_id = ''s'', a_type = ActionType_SCROLL, a_actionState = None, a_button = None,
      a_duration = None, a_x = None, a_y = None, a_absolute = None, a_key = None,
      a_scrollAmount = Some amount\<rparr>"

text \<open>The states that a visualizer of the list \<open>actions\<close> can be in: it starts in
  \<open>initial\<close>; the buttons call \<open>play\<close>, \<open>stop\<close> and \<open>reset\<close>; the host fires pending
  timers, in any order; React renders at any time between these.\<close>

inductive reachable :: "(string \<Rightarrow> string) \<Rightarrow> MacroAction list \<Rightarrow> visualizer \<Rightarrow> bool"
  for toUpperCase actions
where
  r_initial: "reachable toUpperCase actions initial"
| r_play: "reachable toUpperCase actions v \<Longrightarrow>
           reachable toUpperCase actions (play toUpperCase actions v)"
| r_stop: "reachable toUpperCase actions v \<Longrightarrow> reachable toUpperCase actions (stop v)"
| r_reset: "reachable toUpperCase actions v \<Longrightarrow> reachable toUpperCase actions (reset v)"
| r_fire: "reachable toUpperCase actions v \<Longrightarrow> t \<in> set (pendingTimers v) \<Longrightarrow>
           reachable toUpperCase actions (fire toUpperCase actions t v)"
| r_render: "reachable toUpperCase actions v \<Longrightarrow> reachable toUpperCase actions (render v)"

text \<open>The invariant behind \<open>stop\<close>: the handle of every timer that is still pending is in
  \<open>timeoutsRef\<close>.\<close>

definition recorded :: "visualizer \<Rightarrow> bool" where
  "recorded v = (t_handle ` set (pendingTimers v) \<subseteq> set (timeoutsRef v))"

section \<open>Properties of the sanitizer\<close>

subsection \<open>Printing and parsing integers\<close>



















subsection \<open>The loop body, branch by branch\<close>

lemma and_then_Inr: "and_then (Inr v) f = f v"
  by (simp add: and_then_def)

lemma and_then_Inl: "and_then (Inl e) f = Inl e"
  by (simp add: and_then_def)






















subsection \<open>The whole loop\<close>









section \<open>Properties of the generation gateway\<close>

lemma gateway_transport_failure:
  "str_truthy apiKey \<Longrightarrow> generateContent prompt = Transport_failure \<Longrightarrow>
   generateMacroFromPrompt apiKey generateContent JSON_parse toLowerCase rnd n prompt = Inl TransportError"
  by (simp add: generateMacroFromPrompt_def)

lemma gateway_parse_failure:
  "str_truthy apiKey \<Longrightarrow> generateContent prompt = Response (Some t) \<Longrightarrow> t \<noteq> [] \<Longrightarrow>
   JSON_parse t = None \<Longrightarrow>
   generateMacroFromPrompt apiKey generateContent JSON_parse toLowerCase rnd n prompt = Inr (([], []), n)"
  by (simp add: generateMacroFromPrompt_def)

lemma fld_array_map_of:
  "fld (JObj kvs) k = JArr xs \<Longrightarrow> map_of kvs k = Some (JArr xs)"
  by (auto split: option.splits)

lemma merge_same_sequences:
  assumes "fld (JObj m) ''actions'' = JArr olds"
    and "fld (JObj m) ''releaseActions'' = JArr oldReleases"
  shows "merge m [(''actions'', JArr olds), (''releaseActions'', JArr oldReleases)] = m"
  using fld_array_map_of[OF assms(1)] fld_array_map_of[OF assms(2)]
  by (simp add: merge_def update_triv)

lemma strict_eq_canonical: "strict_eq v w \<Longrightarrow> canonical v = canonical w"
  by (simp add: strict_eq_def)

lemma isArray_obtain: "isArray v \<Longrightarrow> \<exists>xs. v = JArr xs"
  by (cases v) (auto simp: isArray_def)

lemma updateMacro_nothing_appended:
  assumes ok: "store_ok st"
    and found: "find (\<lambda>m. strict_eq (fld (JObj m) ''id'') mid) (macros st) = Some macro"
    and a: "fld (JObj macro) ''actions'' = JArr olds"
    and r: "fld (JObj macro) ''releaseActions'' = JArr oldReleases"
  shows "map (\<lambda>m. if strict_eq (fld (JObj m) ''id'') mid
                  then merge m [(''actions'', JArr olds),
                                (''releaseActions'', JArr oldReleases)]
                  else m) (macros st) = macros st"
proof -
  from found have mem: "macro \<in> set (macros st)" and hit: "strict_eq (fld (JObj macro) ''id'') mid"
    by (auto simp: find_Some_iff)
  have inj: "inj_on (\<lambda>m. canonical (fld (JObj m) ''id'')) (set (macros st))"
    using ok by (simp add: store_ok_def distinct_map)
  have "merge m [(''actions'', JArr olds), (''releaseActions'', JArr oldReleases)] = m"
    if "m \<in> set (macros st)" and "strict_eq (fld (JObj m) ''id'') mid" for m
  proof -
    have "canonical (fld (JObj m) ''id'') = canonical (fld (JObj macro) ''id'')"
      using strict_eq_canonical[OF that(2)] strict_eq_canonical[OF hit] by (rule trans[OF _ sym])
    then have "m = macro" using inj that(1) mem by (auto dest: inj_onD)
    then show ?thesis using a r by (simp add: merge_same_sequences)
  qed
  then show ?thesis by (simp add: map_idI)
qed

text \<open>
  Claim C6, as the code has it. Let the credential be configured and a macro be selected.
  A transport failure of the service is surfaced (the error message of the dialog is set)
  and the macro collection is left as it was. A parse failure of the response is not
  surfaced: the gateway logs it and returns two empty sequences, the handler appends these
  and sets no error; on a store whose macros have distinct ids and arrays as sequences
  the macro collection keeps its value.
\<close>

theorem gateway_failures:
  assumes "str_truthy apiKey" and "truthy (selectedMacroId st)"
  shows "(generateContent (aiPrompt st) = Transport_failure \<longrightarrow>
            aiError (handleAiGenerate apiKey generateContent JSON_parse toLowerCase rnd n ticks st) =
              Some GenerationFailed \<and>
            macros (handleAiGenerate apiKey generateContent JSON_parse toLowerCase rnd n ticks st) =
              macros st) \<and>
         (generateContent (aiPrompt st) = Response (Some t) \<and> t \<noteq> [] \<and> JSON_parse t = None \<and>
          store_ok st \<longrightarrow>
            generateMacroFromPrompt apiKey generateContent JSON_parse toLowerCase rnd n (aiPrompt st) =
              Inr (([], []), n) \<and>
            aiError (handleAiGenerate apiKey generateContent JSON_parse toLowerCase rnd n ticks st) = None \<and>
            macros (handleAiGenerate apiKey generateContent JSON_parse toLowerCase rnd n ticks st) =
              macros st)"
proof (intro conjI impI)
  assume "generateContent (aiPrompt st) = Transport_failure"
  from gateway_transport_failure[of apiKey generateContent "aiPrompt st", OF assms(1) this]
  have "ai_try_block apiKey generateContent JSON_parse toLowerCase rnd n st st1 = Inl TransportError" for st1
    by (simp add: ai_try_block_def and_then_Inl)
  then show "aiError (handleAiGenerate apiKey generateContent JSON_parse toLowerCase rnd n ticks st) =
               Some GenerationFailed"
    and "macros (handleAiGenerate apiKey generateContent JSON_parse toLowerCase rnd n ticks st) = macros st"
    using assms by (simp_all add: handleAiGenerate_def Let_def)
next
  assume h: "generateContent (aiPrompt st) = Response (Some t) \<and> t \<noteq> [] \<and> JSON_parse t = None \<and>
             store_ok st"
  then have g: "generateMacroFromPrompt apiKey generateContent JSON_parse toLowerCase rnd n (aiPrompt st) =
                Inr (([], []), n)"
    using gateway_parse_failure[of apiKey generateContent "aiPrompt st" t JSON_parse toLowerCase rnd n]
      assms(1) by blast
  then show "generateMacroFromPrompt apiKey generateContent JSON_parse toLowerCase rnd n (aiPrompt st) =
             Inr (([], []), n)" .
  from h have ok: "store_ok st" by simp
  define st1 where "st1 = st\<lparr>aiLoading := True, aiError := None,
                              aiStepIndex := min ticks (AI_STEPS_length - 1)\<rparr>"
  have "\<exists>st2. ai_try_block apiKey generateContent JSON_parse toLowerCase rnd n st st1 = Inr st2 \<and>
              aiError st2 = None \<and> macros st2 = macros st"
  proof (cases "find (\<lambda>m. strict_eq (fld (JObj m) ''id'') (selectedMacroId st)) (macros st)")
    case None
    then show ?thesis by (simp add: ai_try_block_def g and_then_Inr st1_def del: fld.simps)
  next
    case (Some macro)
    then have "macro \<in> set (macros st)" by (auto simp: find_Some_iff)
    with ok obtain olds oldReleases
      where a: "fld (JObj macro) ''actions'' = JArr olds"
        and r: "fld (JObj macro) ''releaseActions'' = JArr oldReleases"
      by (auto simp: store_ok_def list_all_iff dest!: isArray_obtain)
    have m1: "macros st1 = macros st" by (simp add: st1_def)
    have same: "macros (updateMacro (selectedMacroId st)
                    [(''actions'', JArr olds), (''releaseActions'', JArr oldReleases)] st1) =
                macros st"
      using updateMacro_nothing_appended[OF ok Some a r]
      by (simp add: updateMacro_def setMacros_def m1 del: fld.simps)
    have err: "aiError (updateMacro mid updates st1) = None" for mid updates
      by (simp add: updateMacro_def setMacros_def st1_def)
    have "ai_try_block apiKey generateContent JSON_parse toLowerCase rnd n st st1 =
          Inr ((updateMacro (selectedMacroId st)
                  [(''actions'', JArr olds), (''releaseActions'', JArr oldReleases)] st1)
               \<lparr>showAiModal := False, aiPrompt := [], editView := MainView\<rparr>)"
      by (simp add: ai_try_block_def g and_then_Inr Some a r del: fld.simps)
    then show ?thesis using same err by simp
  qed
  then obtain st2 where "ai_try_block apiKey generateContent JSON_parse toLowerCase rnd n st st1 = Inr st2"
    and "aiError st2 = None" and "macros st2 = macros st"
    by blast
  then show "aiError (handleAiGenerate apiKey generateContent JSON_parse toLowerCase rnd n ticks st) = None"
    and "macros (handleAiGenerate apiKey generateContent JSON_parse toLowerCase rnd n ticks st) = macros st"
    using assms by (simp_all add: handleAiGenerate_def Let_def st1_def)
qed

theorem gateway_failures_witness:
  "aiError (handleAiGenerate (Some ''k'') (\<lambda>p. Transport_failure) (\<lambda>t. None) ascii_lower show_nat 0 2
              one_macro_state) = Some GenerationFailed \<and>
   macros (handleAiGenerate (Some ''k'') (\<lambda>p. Transport_failure) (\<lambda>t. None) ascii_lower show_nat 0 2
              one_macro_state) = macros one_macro_state \<and>
   generateMacroFromPrompt (Some ''k'') (\<lambda>p. Response (Some ''<html>'')) (\<lambda>t. None) ascii_lower show_nat 0
     (aiPrompt one_macro_state) = Inr (([], []), 0) \<and>
   aiError (handleAiGenerate (Some ''k'') (\<lambda>p. Response (Some ''<html>'')) (\<lambda>t. None) ascii_lower show_nat 0 2
              one_macro_state) = None \<and>
   macros (handleAiGenerate (Some ''k'') (\<lambda>p. Response (Some ''<html>'')) (\<lambda>t. None) ascii_lower show_nat 0 2
              one_macro_state) = macros one_macro_state"
proof -
  have k: "str_truthy (Some ''k'')" by (simp add: str_truthy_def)
  have sel: "truthy (selectedMacroId one_macro_state)" by (simp add: one_macro_state_def)
  have ok: "store_ok one_macro_state"
    by (simp add: store_ok_def one_macro_state_def isArray_def)
  from gateway_failures[OF k sel, where generateContent = "\<lambda>p. Transport_failure"
      and JSON_parse = "\<lambda>t. None" and toLowerCase = ascii_lower and rnd = show_nat and n = 0 and ticks = 2 and t = "''<html>''"]
    gateway_failures[OF k sel, where generateContent = "\<lambda>p. Response (Some ''<html>'')"
      and JSON_parse = "\<lambda>t. None" and toLowerCase = ascii_lower and rnd = show_nat and n = 0 and ticks = 2 and t = "''<html>''"]
    ok
  show ?thesis by simp
qed

text \<open>The claim as stated fails for a parse failure: the service answers with text that
  is not JSON, and the handler ends with no error message, the dialog closed and the
  prompt cleared, as after a successful generation.\<close>

theorem gateway_parse_failure_counterexample:
  "aiError (handleAiGenerate (Some ''k'') (\<lambda>p. Response (Some ''<html>'')) (\<lambda>t. None) ascii_lower show_nat 0 2
              one_macro_state) = None \<and>
   showAiModal (handleAiGenerate (Some ''k'') (\<lambda>p. Response (Some ''<html>'')) (\<lambda>t. None)
                  ascii_lower show_nat 0 2 one_macro_state) = False \<and>
   aiPrompt (handleAiGenerate (Some ''k'') (\<lambda>p. Response (Some ''<html>'')) (\<lambda>t. None)
               ascii_lower show_nat 0 2 one_macro_state) = []"
  by (simp add: handleAiGenerate_def ai_try_block_def generateMacroFromPrompt_def
        str_truthy_def one_macro_state_def and_then_def updateMacro_def setMacros_def
        strict_eq_def Let_def)

section \<open>Properties of the import\<close>

lemma validate_macro_lacking:
  "\<not> has_required_fields m \<Longrightarrow> \<exists>e. validate_macro idx m = Inl e"
  by (auto simp: validate_macro_def has_required_fields_def)

lemma validate_macro_ok:
  assumes "has_required_fields m"
  shows "\<exists>kvs. m = JObj kvs \<and>
           validate_macro idx m =
             Inr (AList.update ''releaseActions''
                    (if isArray (fld m ''releaseActions'') then fld m ''releaseActions''
                     else JArr []) kvs)"
proof -
  from assms have "truthy (fld m ''id'')" by (simp add: has_required_fields_def)
  then obtain kvs where "m = JObj kvs" by (cases m) auto
  then show ?thesis using assms
    by (simp add: validate_macro_def has_required_fields_def nullish_def)
qed

lemma validate_from_lacking:
  "\<exists>m \<in> set ms. \<not> has_required_fields m \<Longrightarrow> \<exists>e. validate_from idx ms = Inl e"
proof (induction ms arbitrary: idx)
  case Nil
  then show ?case by simp
next
  case (Cons m ms)
  show ?case
  proof (cases "validate_macro idx m")
    case (Inl e)
    then show ?thesis by (simp add: and_then_Inl)
  next
    case (Inr v)
    then have "has_required_fields m" using validate_macro_lacking[of m idx] by auto
    with Cons.prems have "\<exists>m \<in> set ms. \<not> has_required_fields m" by simp
    from Cons.IH[OF this, of "Suc idx"] obtain e where "validate_from (Suc idx) ms = Inl e"
      by blast
    then show ?thesis using Inr by (simp add: and_then_Inr and_then_Inl)
  qed
qed

text \<open>What the import stores for an element: the element with \<open>releaseActions\<close> kept when
  it is an array and replaced by the empty array otherwise.\<close>

lemma validate_from_ok:
  assumes "\<forall>m \<in> set ms. has_required_fields m"
  shows "\<exists>vs. validate_from idx ms = Inr vs \<and> length vs = length ms \<and>
           (\<forall>i < length ms. \<forall>k.
              fld (JObj (vs ! i)) k =
                (if k = ''releaseActions''
                 then (if isArray (fld (ms ! i) k) then fld (ms ! i) k else JArr [])
                 else fld (ms ! i) k))"
  using assms
proof (induction ms arbitrary: idx)
  case Nil
  then show ?case by simp
next
  case (Cons m ms)
  then have "has_required_fields m" by simp
  from validate_macro_ok[OF this, of idx] obtain kvs
    where m: "m = JObj kvs"
      and v: "validate_macro idx m =
              Inr (AList.update ''releaseActions''
                     (if isArray (fld m ''releaseActions'') then fld m ''releaseActions''
                      else JArr []) kvs)"
    by blast
  from Cons.prems have "\<forall>m \<in> set ms. has_required_fields m" by simp
  from Cons.IH[OF this, of "Suc idx"] obtain vs
    where vs: "validate_from (Suc idx) ms = Inr vs" and l: "length vs = length ms"
      and f: "\<forall>i < length ms. \<forall>k.
              fld (JObj (vs ! i)) k =
                (if k = ''releaseActions''
                 then (if isArray (fld (ms ! i) k) then fld (ms ! i) k else JArr [])
                 else fld (ms ! i) k)"
    by blast
  let ?v = "AList.update ''releaseActions''
              (if isArray (fld m ''releaseActions'') then fld m ''releaseActions''
               else JArr []) kvs"
  have hd: "fld (JObj ?v) k =
              (if k = ''releaseActions''
               then (if isArray (fld m k) then fld m k else JArr [])
               else fld m k)" for k
    by (simp add: m update_conv')
  have "validate_from idx (m # ms) = Inr (?v # vs)"
    using v vs by (simp add: and_then_Inr)
  moreover have "length (?v # vs) = length (m # ms)" using l by simp
  moreover have "\<forall>i < length (m # ms). \<forall>k.
              fld (JObj ((?v # vs) ! i)) k =
                (if k = ''releaseActions''
                 then (if isArray (fld ((m # ms) ! i) k) then fld ((m # ms) ! i) k else JArr [])
                 else fld ((m # ms) ! i) k)"
  proof (intro allI impI)
    fix i k
    assume "i < length (m # ms)"
    then show "fld (JObj ((?v # vs) ! i)) k =
                (if k = ''releaseActions''
                 then (if isArray (fld ((m # ms) ! i) k) then fld ((m # ms) ! i) k else JArr [])
                 else fld ((m # ms) ! i) k)"
      using hd[of k] f by (cases i) (simp_all del: fld.simps)
  qed
  ultimately show ?case by blast
qed

text \<open>
  Claim C7. When the text is not valid JSON, or its root is not an array, or some element
  of the array lacks a non-empty \<open>id\<close>, \<open>name\<close> or \<open>triggerKey\<close> or an array \<open>actions\<close>, the
  import shows one message, which is not the success message, and changes neither the macro
  collection nor the selection nor the stored document. When every element has the
  required fields the import succeeds whatever \<open>releaseActions\<close> is: each element is stored
  with its fields as they came, except that a \<open>releaseActions\<close> that is missing or not an
  array is replaced by the empty array.
\<close>

theorem import_validation:
  "((JSON_parse s = None \<or> (\<exists>p. JSON_parse s = Some p \<and> \<not> isArray p) \<or>
     (\<exists>elems. JSON_parse s = Some (JArr elems) \<and> (\<exists>m \<in> set elems. \<not> has_required_fields m))) \<longrightarrow>
      macros (processImport JSON_parse s st) = macros st \<and>
      selectedMacroId (processImport JSON_parse s st) = selectedMacroId st \<and>
      localStorage (processImport JSON_parse s st) = localStorage st \<and>
      (\<exists>msg. alerts (processImport JSON_parse s st) = alerts st @ [msg] \<and>
             (\<forall>c. msg \<noteq> ImportSucceeded c))) \<and>
   (trim s \<noteq> [] \<and> JSON_parse s = Some (JArr ms) \<and> (\<forall>m \<in> set ms. has_required_fields m) \<longrightarrow>
      length (macros (processImport JSON_parse s st)) = length ms \<and>
      (\<forall>i < length ms. \<forall>k.
         fld (JObj (macros (processImport JSON_parse s st) ! i)) k =
           (if k = ''releaseActions''
            then (if isArray (fld (ms ! i) k) then fld (ms ! i) k else JArr [])
            else fld (ms ! i) k)) \<and>
      alerts (processImport JSON_parse s st) = alerts st @ [ImportSucceeded (length ms)])"
proof (intro conjI impI)
  assume fail: "JSON_parse s = None \<or> (\<exists>p. JSON_parse s = Some p \<and> \<not> isArray p) \<or>
     (\<exists>elems. JSON_parse s = Some (JArr elems) \<and> (\<exists>m \<in> set elems. \<not> has_required_fields m))"
  have "\<exists>msg. processImport JSON_parse s st = show_alert msg st \<and> (\<forall>c. msg \<noteq> ImportSucceeded c)"
  proof (cases "s = [] \<or> trim s = []")
    case True
    then show ?thesis by (auto simp: processImport_def)
  next
    case False
    from fail consider (bad_json) "JSON_parse s = None"
      | (bad_root) p where "JSON_parse s = Some p" "\<not> isArray p"
      | (bad_elem) elems where "JSON_parse s = Some (JArr elems)"
          "\<exists>m \<in> set elems. \<not> has_required_fields m"
      by (elim disjE exE conjE) auto
    then show ?thesis
    proof cases
      case bad_json
      with False show ?thesis by (auto simp: processImport_def)
    next
      case bad_root
      with False show ?thesis by (auto simp: processImport_def)
    next
      case bad_elem
      from validate_from_lacking[OF bad_elem(2), of 0] obtain e
        where "validate_from 0 elems = Inl e" by blast
      with False bad_elem(1) show ?thesis by (auto simp: processImport_def isArray_def)
    qed
  qed
  then obtain msg where p: "processImport JSON_parse s st = show_alert msg st"
    and n: "\<forall>c. msg \<noteq> ImportSucceeded c" by blast
  show "macros (processImport JSON_parse s st) = macros st"
    and "selectedMacroId (processImport JSON_parse s st) = selectedMacroId st"
    and "localStorage (processImport JSON_parse s st) = localStorage st"
    by (simp_all add: p show_alert_def)
  show "\<exists>msg. alerts (processImport JSON_parse s st) = alerts st @ [msg] \<and>
             (\<forall>c. msg \<noteq> ImportSucceeded c)"
    using n by (auto simp: p show_alert_def)
next
  assume ok: "trim s \<noteq> [] \<and> JSON_parse s = Some (JArr ms) \<and>
              (\<forall>m \<in> set ms. has_required_fields m)"
  then have ne: "s \<noteq> []" by (auto simp: trim_def)
  from ok have "\<forall>m \<in> set ms. has_required_fields m" by simp
  from validate_from_ok[OF this, of 0] obtain vs
    where vs: "validate_from 0 ms = Inr vs" and l: "length vs = length ms"
      and f: "\<forall>i < length ms. \<forall>k.
              fld (JObj (vs ! i)) k =
                (if k = ''releaseActions''
                 then (if isArray (fld (ms ! i) k) then fld (ms ! i) k else JArr [])
                 else fld (ms ! i) k)"
    by blast
  have m: "macros (processImport JSON_parse s st) = vs"
    and a: "alerts (processImport JSON_parse s st) = alerts st @ [ImportSucceeded (length vs)]"
    using ok ne vs
    by (simp_all add: processImport_def isArray_def show_alert_def setMacros_def)
  show "length (macros (processImport JSON_parse s st)) = length ms" by (simp add: m l)
  show "\<forall>i < length ms. \<forall>k.
         fld (JObj (macros (processImport JSON_parse s st) ! i)) k =
           (if k = ''releaseActions''
            then (if isArray (fld (ms ! i) k) then fld (ms ! i) k else JArr [])
            else fld (ms ! i) k)"
    unfolding m by (rule f)
  show "alerts (processImport JSON_parse s st) = alerts st @ [ImportSucceeded (length ms)]"
    by (simp add: a l)
qed

theorem import_validation_witness:
  "macros (processImport (\<lambda>t. Some (JObj [(''id'', JStr ''x'')])) ''{...}'' one_macro_state) =
     macros one_macro_state \<and>
   macros (processImport
             (\<lambda>t. Some (JArr [JObj [(''id'', JStr ''x''), (''name'', JStr ''n''),
                                     (''actions'', JArr [])]]))
             ''[{...}]'' one_macro_state) =
     macros one_macro_state \<and>
   length (macros (processImport
             (\<lambda>t. Some (JArr [JObj [(''id'', JStr ''x''), (''name'', JStr ''n''),
                                     (''triggerKey'', JStr ''f2''), (''actions'', JArr []),
                                     (''releaseActions'', JStr ''none'')]]))
             ''[{...}]'' one_macro_state)) = 1 \<and>
   fld (JObj (macros (processImport
             (\<lambda>t. Some (JArr [JObj [(''id'', JStr ''x''), (''name'', JStr ''n''),
                                     (''triggerKey'', JStr ''f2''), (''actions'', JArr []),
                                     (''releaseActions'', JStr ''none'')]]))
             ''[{...}]'' one_macro_state) ! 0)) ''releaseActions'' = JArr [] \<and>
   fld (JObj (macros (processImport
             (\<lambda>t. Some (JArr [JObj [(''id'', JStr ''x''), (''name'', JStr ''n''),
                                     (''triggerKey'', JStr ''f2''), (''actions'', JArr []),
                                     (''releaseActions'', JStr ''none'')]]))
             ''[{...}]'' one_macro_state) ! 0)) ''triggerKey'' = JStr ''f2''"
proof -
  let ?m = "JObj [(''id'', JStr ''x''), (''name'', JStr ''n''), (''triggerKey'', JStr ''f2''),
                  (''actions'', JArr []), (''releaseActions'', JStr ''none'')]"
  have t: "trim ''[{...}]'' \<noteq> []" by (simp add: trim_def is_ws_def)
  have r: "\<forall>m \<in> set [?m]. has_required_fields m"
    by (simp add: has_required_fields_def isArray_def)
  have 1: "\<not> isArray (JObj [(''id'', JStr ''x'')])" by (simp add: isArray_def)
  have 2: "\<exists>m \<in> set [JObj [(''id'', JStr ''x''), (''name'', JStr ''n''), (''actions'', JArr [])]].
             \<not> has_required_fields m"
    by (simp add: has_required_fields_def)
  from import_validation[where JSON_parse = "\<lambda>t. Some (JObj [(''id'', JStr ''x'')])"
      and s = "''{...}''" and st = one_macro_state] 1
  have a: "macros (processImport (\<lambda>t. Some (JObj [(''id'', JStr ''x'')])) ''{...}''
             one_macro_state) = macros one_macro_state"
    by blast
  from import_validation[where
      JSON_parse = "\<lambda>t. Some (JArr [JObj [(''id'', JStr ''x''), (''name'', JStr ''n''),
                                          (''actions'', JArr [])]])"
      and s = "''[{...}]''" and st = one_macro_state] 2
  have b: "macros (processImport
             (\<lambda>t. Some (JArr [JObj [(''id'', JStr ''x''), (''name'', JStr ''n''),
                                     (''actions'', JArr [])]]))
             ''[{...}]'' one_macro_state) =
           macros one_macro_state"
    by blast
  from import_validation[where JSON_parse = "\<lambda>t. Some (JArr [?m])" and s = "''[{...}]''"
      and st = one_macro_state and ms = "[?m]"] t r
  have c: "length (macros (processImport (\<lambda>t. Some (JArr [?m])) ''[{...}]'' one_macro_state)) =
             length [?m]"
    and d: "\<forall>i < length [?m]. \<forall>k.
         fld (JObj (macros (processImport (\<lambda>t. Some (JArr [?m])) ''[{...}]'' one_macro_state) ! i)) k =
           (if k = ''releaseActions''
            then (if isArray (fld ([?m] ! i) k) then fld ([?m] ! i) k else JArr [])
            else fld ([?m] ! i) k)"
    by blast+
  from d have "fld (JObj (macros (processImport (\<lambda>t. Some (JArr [?m])) ''[{...}]''
                    one_macro_state) ! 0)) ''releaseActions'' = JArr []"
    and "fld (JObj (macros (processImport (\<lambda>t. Some (JArr [?m])) ''[{...}]''
                    one_macro_state) ! 0)) ''triggerKey'' = JStr ''f2''"
    by (simp_all add: isArray_def)
  with a b c show ?thesis by simp
qed

section \<open>Properties of the visualizer\<close>

subsection \<open>Setting a timeout\<close>

lemma schedule_pending:
  "pendingTimers (schedule cb ms v) =
     pendingTimers v @ [\<lparr>t_handle = nextHandle v, t_delay = host_delay ms, t_callback = cb\<rparr>]"
  by (simp add: schedule_def setTimeout_def)

lemma schedule_timeoutsRef:
  "timeoutsRef (schedule cb ms v) = timeoutsRef v @ [nextHandle v]"
  by (simp add: schedule_def setTimeout_def)

lemma schedule_frame:
  "activeKeys (schedule cb ms v) = activeKeys v"
  "activeMouseBtns (schedule cb ms v) = activeMouseBtns v"
  "scrollState (schedule cb ms v) = scrollState v"
  "currentIndex (schedule cb ms v) = currentIndex v"
  "isPlaying (schedule cb ms v) = isPlaying v"
  "isPlayingRef (schedule cb ms v) = isPlayingRef v"
  "queued_currentIndex (schedule cb ms v) = queued_currentIndex v"
  "queued_isPlaying (schedule cb ms v) = queued_isPlaying v"
  "queued_activeKeys (schedule cb ms v) = queued_activeKeys v"
  "queued_activeMouseBtns (schedule cb ms v) = queued_activeMouseBtns v"
  "queued_scrollState (schedule cb ms v) = queued_scrollState v"
  by (simp_all add: schedule_def setTimeout_def)

lemmas setters =
  setCurrentIndex_def setIsPlaying_def setActiveKeys_def setActiveMouseBtns_def
  setScrollState_def


subsection \<open>Key labels\<close>

lemma normalizeKey_refines:
  assumes "upper_cases_table toUpperCase"
  shows "normalizeKey toUpperCase k = canonical_label toUpperCase k"
proof -
  from assms have
    "toUpperCase '' '' = '' ''" "toUpperCase ''control'' = ''CONTROL''"
    "toUpperCase ''return'' = ''RETURN''" "toUpperCase ''escape'' = ''ESCAPE''"
    "toUpperCase ''delete'' = ''DELETE''" "toUpperCase ''insert'' = ''INSERT''"
    "toUpperCase ''arrowup'' = ''ARROWUP''" "toUpperCase ''arrowdown'' = ''ARROWDOWN''"
    "toUpperCase ''arrowleft'' = ''ARROWLEFT''" "toUpperCase ''arrowright'' = ''ARROWRIGHT''"
    "toUpperCase ''pageup'' = ''PAGEUP''" "toUpperCase ''pagedown'' = ''PAGEDOWN''"
    by (simp_all add: upper_cases_table_def key_label_table_def)
  then show ?thesis
    by (simp add: normalizeKey_def canonical_label_def key_label_table_def Let_def)
qed

lemma ascii_upper_table: "upper_cases_table ascii_upper"
  by (simp add: upper_cases_table_def key_label_table_def ascii_upper_def upper_char_def)

text \<open>
  Claim C9. Whatever the library's \<^verbatim>\<open>toUpperCase\<close> does beyond the twelve raw names of
  the table, \<open>normalizeKey\<close> computes the canonicalization table of the specification: the
  empty string gives the empty string; a raw name that is, whatever its letter case, the
  space character, control, return, escape, delete, insert, arrowup, arrowdown, arrowleft,
  arrowright, pageup or pagedown gives SPACE, CTRL, ENTER, ESC, DEL, INS, UP, DOWN, LEFT,
  RIGHT, PGUP or PGDN; any other name gives its upper-cased form. Two non-empty raw names
  with the same upper-cased form get the same label. The set of active keys is only ever
  changed by the label: a Key action queues an update for the label of its key, which at the
  next render removes the label when the state of the action is \<open>up\<close> and adds it otherwise.
\<close>

theorem key_label_canonicalization:
  assumes "upper_cases_table toUpperCase"
  shows "normalizeKey toUpperCase k = canonical_label toUpperCase k \<and>
   (k \<noteq> [] \<and> k' \<noteq> [] \<and> toUpperCase k = toUpperCase k' \<longrightarrow>
      normalizeKey toUpperCase k = normalizeKey toUpperCase k') \<and>
   (a_type action = ActionType_KEY \<and> a_key action = Some k \<longrightarrow>
      queued_activeKeys (dispatch toUpperCase action v) =
        queued_activeKeys v @
        [StepUpdater (canonical_label toUpperCase k) (a_actionState action)] \<and>
      activeKeys (dispatch toUpperCase action v) = activeKeys v) \<and>
   fst (apply_update ReleaseKey (StepUpdater label state) (keys, w)) =
     (if state = Some ''up'' then keys - {label} else insert label keys)"
proof (intro conjI impI)
  show "normalizeKey toUpperCase k = canonical_label toUpperCase k"
    using assms by (rule normalizeKey_refines)
next
  assume "k \<noteq> [] \<and> k' \<noteq> [] \<and> toUpperCase k = toUpperCase k'"
  then show "normalizeKey toUpperCase k = normalizeKey toUpperCase k'"
    by (simp add: normalizeKey_def)
next
  assume h: "a_type action = ActionType_KEY \<and> a_key action = Some k"
  have "str_or (Some k) [] = k" by (simp add: str_or_def)
  with h show "queued_activeKeys (dispatch toUpperCase action v) =
        queued_activeKeys v @
        [StepUpdater (canonical_label toUpperCase k) (a_actionState action)]"
    by (simp add: dispatch_def Let_def setters normalizeKey_refines[OF assms])
  from h show "activeKeys (dispatch toUpperCase action v) = activeKeys v"
    by (simp add: dispatch_def Let_def setters)
next
  show "fst (apply_update ReleaseKey (StepUpdater label state) (keys, w)) =
     (if state = Some ''up'' then keys - {label} else insert label keys)"
    by (simp add: apply_update_def)
qed

theorem key_label_canonicalization_witness:
  "normalizeKey ascii_upper ''ArrowUp'' = ''UP'' \<and> normalizeKey ascii_upper '' '' = ''SPACE'' \<and>
   normalizeKey ascii_upper ''Control'' = ''CTRL'' \<and> normalizeKey ascii_upper ''q'' = ''Q'' \<and>
   normalizeKey ascii_upper [] = [] \<and> normalizeKey ascii_upper ''Return'' = ''ENTER'' \<and>
   normalizeKey ascii_upper ''escape'' = ''ESC'' \<and> normalizeKey ascii_upper ''DELETE'' = ''DEL'' \<and>
   normalizeKey ascii_upper ''Insert'' = ''INS'' \<and>
   normalizeKey ascii_upper ''arrowdown'' = ''DOWN'' \<and>
   normalizeKey ascii_upper ''ArrowLeft'' = ''LEFT'' \<and>
   normalizeKey ascii_upper ''ARROWRIGHT'' = ''RIGHT'' \<and>
   normalizeKey ascii_upper ''PageUp'' = ''PGUP'' \<and>
   normalizeKey ascii_upper ''pageDown'' = ''PGDN'' \<and>
   normalizeKey ascii_upper ''space'' = ''SPACE'' \<and>
   normalizeKey ascii_upper ''CONTROL'' = normalizeKey ascii_upper ''control'' \<and>
   queued_activeKeys (dispatch ascii_upper (key_step ''down'' ''ArrowUp'') initial) =
     [StepUpdater ''UP'' (Some ''down'')] \<and>
   activeKeys (render (dispatch ascii_upper (key_step ''down'' ''ArrowUp'') initial)) = {''UP''}"
proof -
  note kl = key_label_canonicalization[OF ascii_upper_table]
  have same: "''CONTROL'' \<noteq> [] \<and> ''control'' \<noteq> [] \<and>
              ascii_upper ''CONTROL'' = ascii_upper ''control''"
    by (simp add: ascii_upper_def upper_char_def)
  have ev: "canonical_label ascii_upper ''ArrowUp'' = ''UP''"
    "canonical_label ascii_upper '' '' = ''SPACE''"
    "canonical_label ascii_upper ''Control'' = ''CTRL''"
    "canonical_label ascii_upper ''q'' = ''Q''"
    "canonical_label ascii_upper [] = []"
    "canonical_label ascii_upper ''Return'' = ''ENTER''"
    "canonical_label ascii_upper ''escape'' = ''ESC''"
    "canonical_label ascii_upper ''DELETE'' = ''DEL''"
    "canonical_label ascii_upper ''Insert'' = ''INS''"
    "canonical_label ascii_upper ''arrowdown'' = ''DOWN''"
    "canonical_label ascii_upper ''ArrowLeft'' = ''LEFT''"
    "canonical_label ascii_upper ''ARROWRIGHT'' = ''RIGHT''"
    "canonical_label ascii_upper ''PageUp'' = ''PGUP''"
    "canonical_label ascii_upper ''pageDown'' = ''PGDN''"
    "canonical_label ascii_upper ''space'' = ''SPACE''"
    by (simp_all add: canonical_label_def key_label_table_def ascii_upper_def upper_char_def)
  from kl[of "''CONTROL''" "''control''"] same
  have c: "normalizeKey ascii_upper ''CONTROL'' = normalizeKey ascii_upper ''control''" by blast
  have "a_type (key_step ''down'' ''ArrowUp'') = ActionType_KEY \<and>
        a_key (key_step ''down'' ''ArrowUp'') = Some ''ArrowUp''"
    and "a_actionState (key_step ''down'' ''ArrowUp'') = Some ''down''"
    by (simp_all add: key_step_def)
  with kl[of "''ArrowUp''" _ "key_step ''down'' ''ArrowUp''" initial]
  have d: "queued_activeKeys (dispatch ascii_upper (key_step ''down'' ''ArrowUp'') initial) =
             [StepUpdater ''UP'' (Some ''down'')]"
    and a: "activeKeys (dispatch ascii_upper (key_step ''down'' ''ArrowUp'') initial) = {}"
    by (simp_all add: ev initial_def)
  have r: "activeKeys (render (dispatch ascii_upper (key_step ''down'' ''ArrowUp'') initial)) =
           {''UP''}"
    by (simp add: render_def d a Let_def case_prod_unfold apply_update_def)
  show ?thesis
    using kl[THEN conjunct1] c d r by (simp only: ev simp_thms)
qed

subsection \<open>Pacing\<close>






subsection \<open>Every pending timer is recorded\<close>

lemma clearTimeout_frame:
  "timeoutsRef (clearTimeout h v) = timeoutsRef v"
  "activeKeys (clearTimeout h v) = activeKeys v"
  "activeMouseBtns (clearTimeout h v) = activeMouseBtns v"
  "scrollState (clearTimeout h v) = scrollState v"
  "currentIndex (clearTimeout h v) = currentIndex v"
  "isPlaying (clearTimeout h v) = isPlaying v"
  "isPlayingRef (clearTimeout h v) = isPlayingRef v"
  "nextHandle (clearTimeout h v) = nextHandle v"
  "queued_currentIndex (clearTimeout h v) = queued_currentIndex v"
  "queued_isPlaying (clearTimeout h v) = queued_isPlaying v"
  "queued_activeKeys (clearTimeout h v) = queued_activeKeys v"
  "queued_activeMouseBtns (clearTimeout h v) = queued_activeMouseBtns v"
  "queued_scrollState (clearTimeout h v) = queued_scrollState v"
  by (simp_all add: clearTimeout_def)

lemma fold_clearTimeout_frame:
  "timeoutsRef (fold clearTimeout hs v) = timeoutsRef v"
  "activeKeys (fold clearTimeout hs v) = activeKeys v"
  "activeMouseBtns (fold clearTimeout hs v) = activeMouseBtns v"
  "scrollState (fold clearTimeout hs v) = scrollState v"
  "currentIndex (fold clearTimeout hs v) = currentIndex v"
  "isPlaying (fold clearTimeout hs v) = isPlaying v"
  "isPlayingRef (fold clearTimeout hs v) = isPlayingRef v"
  "nextHandle (fold clearTimeout hs v) = nextHandle v"
  "queued_currentIndex (fold clearTimeout hs v) = queued_currentIndex v"
  "queued_isPlaying (fold clearTimeout hs v) = queued_isPlaying v"
  "queued_activeKeys (fold clearTimeout hs v) = queued_activeKeys v"
  "queued_activeMouseBtns (fold clearTimeout hs v) = queued_activeMouseBtns v"
  "queued_scrollState (fold clearTimeout hs v) = queued_scrollState v"
  by (induction hs arbitrary: v; simp add: clearTimeout_frame)+

lemma fold_clearTimeout_pending:
  "pendingTimers (fold clearTimeout hs v) =
     filter (\<lambda>t. t_handle t \<notin> set hs) (pendingTimers v)"
proof (induction hs arbitrary: v)
  case Nil
  then show ?case by simp
next
  case (Cons h hs)
  have "filter (\<lambda>t. t_handle t \<notin> set hs) (filter (\<lambda>t. t_handle t \<noteq> h) (pendingTimers v)) =
        filter (\<lambda>t. t_handle t \<notin> set (h # hs)) (pendingTimers v)"
    by (induction "pendingTimers v") auto
  then show ?case using Cons.IH[of "clearTimeout h v"] by (simp add: clearTimeout_def)
qed

lemma stop_pending: "recorded v \<Longrightarrow> pendingTimers (stop v) = []"
  by (auto simp: stop_def setters fold_clearTimeout_pending recorded_def filter_empty_conv)

lemma stop_frame:
  "timeoutsRef (stop v) = []" "\<not> isPlayingRef (stop v)"
  "queued_scrollState (stop v) = queued_scrollState v @ [None]"
  "queued_isPlaying (stop v) = queued_isPlaying v @ [False]"
  "activeKeys (stop v) = activeKeys v" "activeMouseBtns (stop v) = activeMouseBtns v"
  "queued_activeKeys (stop v) = queued_activeKeys v"
  "queued_activeMouseBtns (stop v) = queued_activeMouseBtns v"
  "scrollState (stop v) = scrollState v" "isPlaying (stop v) = isPlaying v"
  "currentIndex (stop v) = currentIndex v" "queued_currentIndex (stop v) = queued_currentIndex v"
  by (simp_all add: stop_def setters fold_clearTimeout_frame)

lemma recorded_setters:
  "recorded (setCurrentIndex i v) = recorded v"
  "recorded (setIsPlaying b v) = recorded v"
  "recorded (setActiveKeys u v) = recorded v"
  "recorded (setActiveMouseBtns u v) = recorded v"
  "recorded (setScrollState s v) = recorded v"
  "recorded (v\<lparr>isPlayingRef := r\<rparr>) = recorded v"
  by (simp_all add: recorded_def setters)

lemma recorded_stop: "recorded v \<Longrightarrow> recorded (stop v)"
  by (simp add: recorded_def stop_pending[unfolded recorded_def] stop_frame)

lemma recorded_reset: "recorded v \<Longrightarrow> recorded (reset v)"
  by (simp add: reset_def recorded_setters recorded_stop)

lemma recorded_schedule: "recorded v \<Longrightarrow> recorded (schedule cb ms v)"
  by (auto simp: recorded_def schedule_pending schedule_timeoutsRef)

lemma recorded_dispatch: "recorded v \<Longrightarrow> recorded (dispatch toUpperCase action v)"
  by (simp add: dispatch_def Let_def recorded_setters recorded_schedule)

lemma recorded_runStep: "recorded v \<Longrightarrow> recorded (runStep toUpperCase actions index v)"
  by (simp add: runStep_def Let_def recorded_setters recorded_schedule recorded_dispatch)

lemma recorded_play: "recorded v \<Longrightarrow> recorded (play toUpperCase actions v)"
  by (simp add: play_def recorded_setters recorded_reset recorded_runStep)

lemma recorded_fire: "recorded v \<Longrightarrow> recorded (fire toUpperCase actions t v)"
proof -
  assume r: "recorded v"
  have c: "recorded (clearTimeout (t_handle t) v)"
    using r by (auto simp: recorded_def clearTimeout_def)
  then show ?thesis
    by (simp add: fire_def Let_def recorded_setters recorded_runStep split: callback.splits)
qed

lemma recorded_apply_update:
  "recorded (snd sv) \<Longrightarrow> recorded (snd (apply_update release u sv))"
  by (cases sv; cases u) (simp_all add: apply_update_def recorded_schedule)

lemma recorded_fold_apply_update:
  "recorded (snd sv) \<Longrightarrow> recorded (snd (fold (apply_update release) us sv))"
  by (induction us arbitrary: sv) (simp_all add: recorded_apply_update)

lemma recorded_render: "recorded v \<Longrightarrow> recorded (render v)"
proof -
  assume r: "recorded v"
  define v1 where "v1 = snd (fold (apply_update ReleaseKey) (queued_activeKeys v) (activeKeys v, v))"
  define v2 where "v2 = snd (fold (apply_update ReleaseBtn) (queued_activeMouseBtns v)
                               (activeMouseBtns v, v1))"
  have "recorded v1" unfolding v1_def by (rule recorded_fold_apply_update) (simp add: r)
  then have "recorded v2" unfolding v2_def by (intro recorded_fold_apply_update) simp
  then show ?thesis
    by (simp add: render_def Let_def case_prod_unfold recorded_def v1_def v2_def)
qed

lemma reachable_recorded: "reachable toUpperCase actions v \<Longrightarrow> recorded v"
proof (induction rule: reachable.induct)
  case r_initial
  then show ?case by (simp add: recorded_def initial_def)
next
  case (r_play v)
  then show ?case by (simp add: recorded_play)
next
  case (r_stop v)
  then show ?case by (simp add: recorded_stop)
next
  case (r_reset v)
  then show ?case by (simp add: recorded_reset)
next
  case (r_fire v t)
  then show ?case by (simp add: recorded_fire)
next
  case (r_render v)
  then show ?case by (simp add: recorded_render)
qed

subsection \<open>What a render commits\<close>

lemma render_scrollState: "scrollState (render v) = latest (scrollState v) (queued_scrollState v)"
  by (simp add: render_def Let_def case_prod_unfold)

lemma render_isPlaying: "isPlaying (render v) = latest (isPlaying v) (queued_isPlaying v)"
  by (simp add: render_def Let_def case_prod_unfold)

lemma render_activeKeys:
  "activeKeys (render v) =
     fst (fold (apply_update ReleaseKey) (queued_activeKeys v) (activeKeys v, v))"
  by (simp add: render_def Let_def case_prod_unfold)

lemma render_activeMouseBtns:
  "activeMouseBtns (render v) =
     fst (fold (apply_update ReleaseBtn) (queued_activeMouseBtns v)
            (activeMouseBtns v,
             snd (fold (apply_update ReleaseKey) (queued_activeKeys v) (activeKeys v, v))))"
  by (simp add: render_def Let_def case_prod_unfold)

lemma latest_snoc: "latest current (queue @ [x]) = x"
  by (cases queue) (simp_all add: latest_def)

lemma apply_update_fst:
  "fst (apply_update release u (s, v)) = fst (apply_update release u (s, v'))"
  by (cases u) (simp_all add: apply_update_def)

lemma fold_apply_update_fst:
  "fst (fold (apply_update release) us (s, v)) = fst (fold (apply_update release) us (s, v'))"
proof (induction us arbitrary: s v v')
  case Nil
  then show ?case by simp
next
  case (Cons u us)
  obtain s1 v1 where a: "apply_update release u (s, v) = (s1, v1)" by (cases "apply_update release u (s, v)")
  obtain s2 v2 where b: "apply_update release u (s, v') = (s2, v2)" by (cases "apply_update release u (s, v')")
  have "s1 = s2" using apply_update_fst[of release u s v v'] a b by simp
  then show ?case using Cons.IH[of s1 v1 v2] by (simp add: a b)
qed

text \<open>
  Claim C8. In every state that the visualizer can reach, with whatever updates queued,
  \<open>stop\<close> leaves no timer pending and no handle recorded, and clears the playing ref; the
  next render shows no scroll indicator and the stopped state. \<open>stop\<close> leaves the set of
  active keys and the set of active buttons as they were, and the updates queued for them
  as well: the next render commits the same two sets as it would have without the stop.
\<close>

theorem stop_cancels_timers_only:
  assumes "reachable toUpperCase actions v"
  shows "pendingTimers (stop v) = [] \<and> timeoutsRef (stop v) = [] \<and> \<not> isPlayingRef (stop v) \<and>
         scrollState (render (stop v)) = None \<and> \<not> isPlaying (render (stop v)) \<and>
         activeKeys (stop v) = activeKeys v \<and> activeMouseBtns (stop v) = activeMouseBtns v \<and>
         queued_activeKeys (stop v) = queued_activeKeys v \<and>
         queued_activeMouseBtns (stop v) = queued_activeMouseBtns v \<and>
         activeKeys (render (stop v)) = activeKeys (render v) \<and>
         activeMouseBtns (render (stop v)) = activeMouseBtns (render v)"
proof -
  have k: "activeKeys (render (stop v)) = activeKeys (render v)"
    unfolding render_activeKeys stop_frame by (rule fold_apply_update_fst)
  have b: "activeMouseBtns (render (stop v)) = activeMouseBtns (render v)"
    unfolding render_activeMouseBtns stop_frame by (rule fold_apply_update_fst)
  show ?thesis
    using stop_pending[OF reachable_recorded[OF assms]] k b
    by (simp add: stop_frame render_scrollState render_isPlaying latest_snoc)
qed

lemmas visualizer_eval =
  play_def reset_def stop_def runStep_def dispatch_def fire_def schedule_def setTimeout_def
  clearTimeout_def initial_def key_step_def scroll_step_def stepDuration_def num_or0_def
  num_or_def str_or_def normalizeKey_def ascii_upper_def upper_char_def ActionType_KEY_def
  ActionType_CLICK_def ActionType_SCROLL_def ActionType_DELAY_def setters render_def
  apply_update_def latest_def host_delay_def to_long_def Let_def

theorem stop_cancels_timers_only_witness:
  "pendingTimers (play ascii_upper [key_step ''click'' ''a'', scroll_step (Fin 3)] initial) =
     [\<lparr>t_handle = 0, t_delay = 500, t_callback = RunStep 1\<rparr>] \<and>
   queued_activeKeys (play ascii_upper [key_step ''click'' ''a'', scroll_step (Fin 3)] initial) =
     [Replace {}, StepUpdater ''A'' (Some ''click'')] \<and>
   pendingTimers
     (stop (play ascii_upper [key_step ''click'' ''a'', scroll_step (Fin 3)] initial)) = [] \<and>
   pendingTimers
     (render (stop (play ascii_upper [key_step ''click'' ''a'', scroll_step (Fin 3)] initial))) =
     [\<lparr>t_handle = 1, t_delay = 200, t_callback = ReleaseKey ''A''\<rparr>] \<and>
   activeKeys
     (render (stop (play ascii_upper [key_step ''click'' ''a'', scroll_step (Fin 3)] initial))) =
     {''A''} \<and>
   scrollState
     (render (fire ascii_upper [key_step ''click'' ''a'', scroll_step (Fin 3)]
        \<lparr>t_handle = 0, t_delay = 500, t_callback = RunStep 1\<rparr>
        (render (play ascii_upper [key_step ''click'' ''a'', scroll_step (Fin 3)] initial)))) =
     Some ScrollUp \<and>
   pendingTimers
     (render (fire ascii_upper [key_step ''click'' ''a'', scroll_step (Fin 3)]
        \<lparr>t_handle = 0, t_delay = 500, t_callback = RunStep 1\<rparr>
        (render (play ascii_upper [key_step ''click'' ''a'', scroll_step (Fin 3)] initial)))) =
     [\<lparr>t_handle = 1, t_delay = 200, t_callback = ReleaseKey ''A''\<rparr>,
      \<lparr>t_handle = 2, t_delay = 300, t_callback = ClearScroll\<rparr>,
      \<lparr>t_handle = 3, t_delay = 500, t_callback = RunStep 2\<rparr>] \<and>
   pendingTimers
     (stop (render (fire ascii_upper [key_step ''click'' ''a'', scroll_step (Fin 3)]
        \<lparr>t_handle = 0, t_delay = 500, t_callback = RunStep 1\<rparr>
        (render (play ascii_upper [key_step ''click'' ''a'', scroll_step (Fin 3)] initial))))) =
     [] \<and>
   scrollState
     (render (stop (render (fire ascii_upper [key_step ''click'' ''a'', scroll_step (Fin 3)]
        \<lparr>t_handle = 0, t_delay = 500, t_callback = RunStep 1\<rparr>
        (render (play ascii_upper [key_step ''click'' ''a'', scroll_step (Fin 3)] initial)))))) =
     None \<and>
   activeKeys
     (render (stop (render (fire ascii_upper [key_step ''click'' ''a'', scroll_step (Fin 3)]
        \<lparr>t_handle = 0, t_delay = 500, t_callback = RunStep 1\<rparr>
        (render (play ascii_upper [key_step ''click'' ''a'', scroll_step (Fin 3)] initial)))))) =
     {''A''}"
proof -
  let ?acts = "[key_step ''click'' ''a'', scroll_step (Fin 3)]"
  let ?t = "\<lparr>t_handle = 0, t_delay = 500, t_callback = RunStep 1\<rparr>"
  let ?release = "\<lparr>t_handle = 1, t_delay = 200, t_callback = ReleaseKey ''A''\<rparr>"
  have p: "play ascii_upper ?acts initial =
           \<lparr>currentIndex = - 1, isPlaying = False, activeKeys = {}, activeMouseBtns = {},
            scrollState = None, queued_currentIndex = [- 1, 0],
            queued_isPlaying = [False, True],
            queued_activeKeys = [Replace {}, StepUpdater ''A'' (Some ''click'')],
            queued_activeMouseBtns = [Replace {}], queued_scrollState = [None, None, None],
            isPlayingRef = True, timeoutsRef = [0], pendingTimers = [?t], nextHandle = 1\<rparr>"
    by (simp add: visualizer_eval)
  have sp: "render (stop (play ascii_upper ?acts initial)) =
           \<lparr>currentIndex = 0, isPlaying = False, activeKeys = {''A''}, activeMouseBtns = {},
            scrollState = None, queued_currentIndex = [], queued_isPlaying = [],
            queued_activeKeys = [], queued_activeMouseBtns = [], queued_scrollState = [],
            isPlayingRef = False, timeoutsRef = [1], pendingTimers = [?release],
            nextHandle = 2\<rparr>"
    unfolding p by (simp add: visualizer_eval)
  have r1: "render (play ascii_upper ?acts initial) =
           \<lparr>currentIndex = 0, isPlaying = True, activeKeys = {''A''}, activeMouseBtns = {},
            scrollState = None, queued_currentIndex = [], queued_isPlaying = [],
            queued_activeKeys = [], queued_activeMouseBtns = [], queued_scrollState = [],
            isPlayingRef = True, timeoutsRef = [0, 1], pendingTimers = [?t, ?release],
            nextHandle = 2\<rparr>"
    unfolding p by (simp add: visualizer_eval)
  have f: "fire ascii_upper ?acts ?t (render (play ascii_upper ?acts initial)) =
           \<lparr>currentIndex = 0, isPlaying = True, activeKeys = {''A''}, activeMouseBtns = {},
            scrollState = None, queued_currentIndex = [1], queued_isPlaying = [],
            queued_activeKeys = [], queued_activeMouseBtns = [],
            queued_scrollState = [None, Some ScrollUp],
            isPlayingRef = True, timeoutsRef = [0, 1, 2, 3],
            pendingTimers = [?release,
                             \<lparr>t_handle = 2, t_delay = 300, t_callback = ClearScroll\<rparr>,
                             \<lparr>t_handle = 3, t_delay = 500, t_callback = RunStep 2\<rparr>],
            nextHandle = 4\<rparr>"
    unfolding r1 by (simp add: visualizer_eval)
  have r2: "render (fire ascii_upper ?acts ?t (render (play ascii_upper ?acts initial))) =
           \<lparr>currentIndex = 1, isPlaying = True, activeKeys = {''A''}, activeMouseBtns = {},
            scrollState = Some ScrollUp, queued_currentIndex = [], queued_isPlaying = [],
            queued_activeKeys = [], queued_activeMouseBtns = [], queued_scrollState = [],
            isPlayingRef = True, timeoutsRef = [0, 1, 2, 3],
            pendingTimers = [?release,
                             \<lparr>t_handle = 2, t_delay = 300, t_callback = ClearScroll\<rparr>,
                             \<lparr>t_handle = 3, t_delay = 500, t_callback = RunStep 2\<rparr>],
            nextHandle = 4\<rparr>"
    unfolding f by (simp add: visualizer_eval)
  have reach0: "reachable ascii_upper ?acts (play ascii_upper ?acts initial)"
    by (intro r_play r_initial)
  have "?t \<in> set (pendingTimers (render (play ascii_upper ?acts initial)))" by (simp add: r1)
  then have reach2: "reachable ascii_upper ?acts
      (render (fire ascii_upper ?acts ?t (render (play ascii_upper ?acts initial))))"
    by (intro r_render r_fire r_play r_initial)
  let ?v0 = "play ascii_upper ?acts initial"
  let ?v3 = "render (fire ascii_upper ?acts ?t (render (play ascii_upper ?acts initial)))"
  note a = stop_cancels_timers_only[OF reach0] and b = stop_cancels_timers_only[OF reach2]
  have c1: "pendingTimers ?v0 = [?t]" by (simp add: p)
  have c2: "queued_activeKeys ?v0 = [Replace {}, StepUpdater ''A'' (Some ''click'')]"
    by (simp add: p)
  have c3: "pendingTimers (stop ?v0) = []" using a by blast
  have c4: "pendingTimers (render (stop ?v0)) = [?release]" by (simp add: sp)
  have c5: "activeKeys (render (stop ?v0)) = {''A''}" by (simp add: sp)
  have c6: "scrollState ?v3 = Some ScrollUp" unfolding r2 by simp
  have c7: "pendingTimers ?v3 =
              [?release, \<lparr>t_handle = 2, t_delay = 300, t_callback = ClearScroll\<rparr>,
               \<lparr>t_handle = 3, t_delay = 500, t_callback = RunStep 2\<rparr>]"
    unfolding r2 by simp
  have c8: "pendingTimers (stop ?v3) = []" using b by blast
  have c9: "scrollState (render (stop ?v3)) = None" using b by blast
  have "activeKeys (render ?v3) = {''A''}"
    unfolding r2 by (simp add: visualizer_eval)
  moreover have "activeKeys (render (stop ?v3)) = activeKeys (render ?v3)" using b by blast
  ultimately have c10: "activeKeys (render (stop ?v3)) = {''A''}" by simp
  show ?thesis
    by (intro conjI) (fact c1 c2 c3 c4 c5 c6 c7 c8 c9 c10)+
qed

end
